theory Spec2Isabelle
  imports Complex_Main
begin

section \<open>Errors and the tensor operations the model code relies on\<close>

text \<open>
  The Python exceptions the modelled functions can raise. A function that may raise
  returns \<open>error + 'a\<close>, with \<open>Inl\<close> for the exception.
\<close>

datatype error =
    AssertionError | IndexError | ValueError | RuntimeError | TypeError
  | AttributeError | NotImplementedError | ZeroDivisionError

text \<open>
  A loop body that may raise, run over a list: the first exception ends the loop.
\<close>

fun emap :: "('a \<Rightarrow> error + 'b) \<Rightarrow> 'a list \<Rightarrow> error + 'b list" where
  "emap f [] = Inr []"
| "emap f (x # xs) =
     (case f x of
        Inl e \<Rightarrow> Inl e
      | Inr y \<Rightarrow> (case emap f xs of Inl e \<Rightarrow> Inl e | Inr ys \<Rightarrow> Inr (y # ys)))"

text \<open>Sequencing of two steps that may raise.\<close>

definition ebind :: "error + 'a \<Rightarrow> ('a \<Rightarrow> error + 'b) \<Rightarrow> error + 'b" where
  "ebind r f = (case r of Inl e \<Rightarrow> Inl e | Inr x \<Rightarrow> f x)"

text \<open>
  A batch tensor of shape \<open>(B, L, *)\<close> is a list (the batch) of lists (the time axis) of
  frames. A frame of a float tensor \<open>(B, L, E)\<close> is a feature vector, kept abstract as
  \<open>'e\<close> (none of the modelled code looks inside one; \<open>0\<close> is the all-zero vector). A
  frame of a token tensor \<open>(B, L, n_q)\<close> is the list of its \<open>n_q\<close> token ids.
  Lengths are \<open>nat\<close>, token ids are \<open>int\<close>.
\<close>

text \<open>\<open>x[i]\<close> on the first axis: IndexError past the end.\<close>

definition index0 :: "'a list \<Rightarrow> nat \<Rightarrow> error + 'a" where
  "index0 xs i = (if i < length xs then Inr (xs ! i) else Inl IndexError)"

text \<open>The largest entry of a list of naturals (0 for the empty list).\<close>

fun max_list :: "nat list \<Rightarrow> nat" where
  "max_list [] = 0"
| "max_list (x # xs) = max x (max_list xs)"

text \<open>\<open>lengths.max()\<close> of a 1-D integer tensor: torch raises on an empty tensor.\<close>

definition tensor_max :: "nat list \<Rightarrow> error + nat" where
  "tensor_max xs = (if xs = [] then Inl RuntimeError else Inr (max_list xs))"

text \<open>
  \<open>a + b\<close> of two 1-D integer tensors, with torch's broadcasting: equal sizes add
  entry by entry, a size-1 tensor is added to every entry of the other, any other pair of
  sizes raises.
\<close>

definition tensor_add :: "nat list \<Rightarrow> nat list \<Rightarrow> error + nat list" where
  "tensor_add a b =
     (if length a = length b then Inr (map2 (+) a b)
      else if length a = 1 then Inr (map (\<lambda>y. hd a + y) b)
      else if length b = 1 then Inr (map (\<lambda>x. x + hd b) a)
      else Inl RuntimeError)"

text \<open>
  \<open>pad_list(xs, pad_value)\<close> of \<open>funcodec.modules.nets_utils\<close>: a new tensor of
  \<open>len(xs)\<close> rows, each as long as the longest of \<open>xs\<close>, filled with \<open>pad_value\<close> and
  then overwritten at the front of row \<open>i\<close> by \<open>xs[i]\<close>. Its \<open>max(...)\<close> over the rows'
  lengths raises ValueError on an empty list.
\<close>

definition pad_list :: "'a list list \<Rightarrow> 'a \<Rightarrow> error + 'a list list" where
  "pad_list xs pad_value =
     (if xs = [] then Inl ValueError
      else Inr (map (\<lambda>x. x @ replicate (max_list (map length xs) - length x) pad_value) xs))"

text \<open>\<open>x.size(1)\<close> (or \<open>x.shape[1]\<close>) of a \<open>(B, T, ...)\<close> tensor, read off its first row.\<close>

definition time_size :: "'a list list \<Rightarrow> nat" where
  "time_size emb = (case emb of [] \<Rightarrow> 0 | row # _ \<Rightarrow> length row)"

section \<open>\<open>LauraGenModel\<close> (exp/tse_wavlm/model.py)\<close>

subsection \<open>\<open>_pad_two\<close>\<close>

text \<open>
  The loop runs over \<open>zip(t1_lens, t2_lens)\<close> with the index \<open>i\<close> of \<open>enumerate\<close>;
  \<open>t[i, :l]\<close> is the first \<open>l\<close> frames of row \<open>i\<close> (all of them when the row is shorter).
\<close>

definition pad_two_row ::
  "'a list list \<Rightarrow> 'a list list \<Rightarrow> nat \<times> nat \<times> nat \<Rightarrow> error + 'a list" where
  "pad_two_row t1 t2 = (\<lambda>(i, t1_l, t2_l).
     (case index0 t1 i of
        Inl e \<Rightarrow> Inl e
      | Inr r1 \<Rightarrow> (case index0 t2 i of
          Inl e \<Rightarrow> Inl e
        | Inr r2 \<Rightarrow> Inr (take t1_l r1 @ take t2_l r2))))"

definition pad_two ::
  "('a::zero) list list \<Rightarrow> nat list \<Rightarrow> 'a list list \<Rightarrow> nat list
     \<Rightarrow> error + ('a list list \<times> nat list)" where
  "pad_two t1 t1_lens t2 t2_lens =
     (case emap (pad_two_row t1 t2) (enumerate 0 (zip t1_lens t2_lens)) of
        Inl e \<Rightarrow> Inl e
      | Inr inputs_list \<Rightarrow>
          (case pad_list inputs_list 0 of
             Inl e \<Rightarrow> Inl e
           | Inr padded \<Rightarrow>
               (case tensor_add t1_lens t2_lens of
                  Inl e \<Rightarrow> Inl e
                | Inr lens \<Rightarrow> Inr (padded, lens))))"

subsection \<open>The model's fields\<close>

text \<open>
  The fields of \<open>LauraGenModel\<close> the modelled methods read. \<open>lm_embedding\<close> is the
  \<open>torch.nn.Embedding(2, codebook_dim)\<close> holding the vectors of the two special ids;
  \<open>kmeans_emb\<close> is the lookup \<open>self.kmeans.emb\<close> of \<open>models.kmeans.KMeansQuantizer\<close>,
  whose source is not part of the files at hand: it is taken as a parameter, a function
  from a token id to its vector.
\<close>

record 'e laura_gen_model =
  codebook_size :: int
  predict_nq :: nat
  lm_embedding :: "int \<Rightarrow> 'e"
  kmeans_emb :: "int \<Rightarrow> 'e"

text \<open>\<open>self.sos_eos = 0\<close> and \<open>self.task_id = 1\<close>, set in \<open>__init__\<close>.\<close>

definition sos_eos :: int where
  "sos_eos = 0"

definition task_id :: int where
  "task_id = 1"

text \<open>The end-of-sequence token id, \<open>self.codebook_size + self.sos_eos\<close>.\<close>

definition eos_id :: "'e laura_gen_model \<Rightarrow> int" where
  "eos_id m = codebook_size m + sos_eos"

subsection \<open>\<open>calc_dense_vector\<close>\<close>

text \<open>
  \<open>assert codec.shape[-1] == 1\<close>, then \<open>squeeze(-1)\<close> and the k-means lookup of every
  token. The trailing dimension of a nested list is read off its frames: the assertion
  holds when every frame has one entry.
\<close>

definition calc_dense_vector ::
  "'e laura_gen_model \<Rightarrow> int list list list \<Rightarrow> nat list \<Rightarrow> error + 'e list list" where
  "calc_dense_vector m codec codec_lengths =
     (if list_all (list_all (\<lambda>fr. length fr = 1)) codec
      then Inr (map (map (\<lambda>fr. kmeans_emb m (hd fr))) codec)
      else Inl AssertionError)"

subsection \<open>\<open>build_llm_io\<close>\<close>

text \<open>
  What \<open>build_llm_io\<close> returns: \<open>llm_inputs, llm_lengths\<close> without targets,
  \<open>(llm_inputs, llm_targets), (llm_lengths, codec_lengths + 1)\<close> with them.
\<close>

datatype 'e llm_io =
    Inputs "'e list list" "nat list"
  | InputsTargets "'e list list" "int list list list" "nat list" "nat list"

fun io_inputs :: "'e llm_io \<Rightarrow> 'e list list" where
  "io_inputs (Inputs x l) = x"
| "io_inputs (InputsTargets x t l tlen) = x"

fun io_lengths :: "'e llm_io \<Rightarrow> nat list" where
  "io_lengths (Inputs x l) = l"
| "io_lengths (InputsTargets x t l tlen) = l"

text \<open>
  One pass of the loop over \<open>enumerate(text_lengths)\<close>. \<open>codec_emb\<close> is \<open>None\<close> unless
  both \<open>codec\<close> and \<open>codec_lengths\<close> were given; it is kept with the lengths it is
  sliced by.
\<close>

definition llm_input_row ::
  "'e laura_gen_model \<Rightarrow> 'e list list \<Rightarrow> ('e list list \<times> nat list) option
     \<Rightarrow> nat \<times> nat \<Rightarrow> error + 'e list" where
  "llm_input_row m text codec_emb = (\<lambda>(i, text_len).
     ebind (index0 text i) (\<lambda>text_i.
       let one_input = [lm_embedding m sos_eos] @ take text_len text_i @ [lm_embedding m task_id]
       in (case codec_emb of
             None \<Rightarrow> Inr one_input
           | Some (emb, codec_lengths) \<Rightarrow>
               ebind (index0 codec_lengths i) (\<lambda>codec_len.
               ebind (index0 emb i) (\<lambda>emb_i.
                 Inr (one_input @ take codec_len emb_i))))))"

text \<open>
  Broadcasting of an assigned value to the shape of the slice it is assigned to: a frame
  of \<open>n\<close> ids fits a frame of \<open>n\<close> ids, a frame of one id is repeated, anything else raises;
  likewise for the rows of \<open>dst[:n] = src\<close>.
\<close>

definition broadcast_frame :: "nat \<Rightarrow> int list \<Rightarrow> error + int list" where
  "broadcast_frame nq fr =
     (if length fr = nq then Inr fr
      else if length fr = 1 then Inr (replicate nq (hd fr))
      else Inl RuntimeError)"

definition assign_prefix ::
  "nat \<Rightarrow> nat \<Rightarrow> int list list \<Rightarrow> int list list \<Rightarrow> error + int list list" where
  "assign_prefix nq n dst src =
     (let k = min n (length dst)
      in ebind (emap (broadcast_frame nq) src) (\<lambda>src'.
           if length src' = k then Inr (src' @ drop k dst)
           else if length src' = 1 then Inr (replicate k (hd src') @ drop k dst)
           else Inl RuntimeError))"

text \<open>\<open>row[j] = v\<close>: IndexError past the end.\<close>

definition set_frame :: "'a list \<Rightarrow> nat \<Rightarrow> 'a \<Rightarrow> error + 'a list" where
  "set_frame row j v = (if j < length row then Inr (row[j := v]) else Inl IndexError)"

text \<open>
  The loop over \<open>enumerate(codec_lengths)\<close> that fills \<open>llm_targets\<close>:
  \<open>llm_targets[i, :codec_len] = codec[i, :codec_len]\<close>, then
  \<open>llm_targets[i, codec_len] = self.codebook_size + self.sos_eos\<close>.
\<close>

fun fill_targets ::
  "'e laura_gen_model \<Rightarrow> int list list list \<Rightarrow> (nat \<times> nat) list \<Rightarrow> int list list list
     \<Rightarrow> error + int list list list" where
  "fill_targets m codec [] llm_targets = Inr llm_targets"
| "fill_targets m codec ((i, codec_len) # rest) llm_targets =
     ebind (index0 codec i) (\<lambda>codec_i.
     ebind (index0 llm_targets i) (\<lambda>target_i.
     ebind (assign_prefix (predict_nq m) codec_len target_i (take codec_len codec_i)) (\<lambda>target_i'.
     ebind (set_frame target_i' codec_len (replicate (predict_nq m) (eos_id m))) (\<lambda>target_i''.
       fill_targets m codec rest (llm_targets[i := target_i''])))))"

definition build_llm_io ::
  "('e::zero) laura_gen_model \<Rightarrow> 'e list list \<Rightarrow> nat list \<Rightarrow> int list list list option
     \<Rightarrow> nat list option \<Rightarrow> bool \<Rightarrow> error + 'e llm_io" where
  "build_llm_io m text text_lengths codec codec_lengths need_targets =
     (if need_targets \<and> (codec = None \<or> codec_lengths = None) then Inl AssertionError
      else
        ebind (case (codec, codec_lengths) of
                 (Some c, Some cl) \<Rightarrow>
                   ebind (calc_dense_vector m c cl) (\<lambda>emb. Inr (Some (emb, cl)))
               | _ \<Rightarrow> Inr None) (\<lambda>codec_emb.
        ebind (emap (llm_input_row m text codec_emb) (enumerate 0 text_lengths)) (\<lambda>inputs_list.
        ebind (pad_list inputs_list 0) (\<lambda>llm_inputs.
        ebind (case codec_emb of
                 None \<Rightarrow> Inr (map (\<lambda>l. l + 2) text_lengths)
               | Some (emb, cl) \<Rightarrow> tensor_add (map (\<lambda>l. l + 2) text_lengths) cl) (\<lambda>llm_lengths.
          if \<not> need_targets then Inr (Inputs llm_inputs llm_lengths)
          else (case (codec, codec_lengths) of
                  (Some c, Some cl) \<Rightarrow>
                    ebind (tensor_max cl) (\<lambda>mx.
                      let bb = length text; tt = mx + 1
                      in ebind (fill_targets m c (enumerate 0 cl)
                                  (replicate bb (replicate tt (replicate (predict_nq m) 0))))
                           (\<lambda>llm_targets.
                              Inr (InputsTargets llm_inputs llm_targets llm_lengths
                                     (map (\<lambda>l. l + 1) cl))))
                | _ \<Rightarrow> Inl AssertionError))))))"

text \<open>
  Row \<open>i\<close> of \<open>llm_targets\<close> after its pass of the loop, when nothing raised: the
  first \<open>l\<close> frames of \<open>codec[i]\<close>, each broadcast to \<open>predict_nq\<close> entries, then what
  the row held before, with the end-of-sequence frame written at position \<open>l\<close>.
\<close>

definition filled_row ::
  "nat \<Rightarrow> int \<Rightarrow> nat \<Rightarrow> int list list \<Rightarrow> int list list \<Rightarrow> int list list" where
  "filled_row nq eos l ci ti =
     (map (\<lambda>fr. replicate nq (hd fr)) (take l ci) @ drop l ti)[l := replicate nq eos]"

subsection \<open>\<open>sampling_ids\<close>\<close>

text \<open>
  The \<open>sampling\<close> argument, by the type \<open>isinstance\<close> finds: \<open>bool\<close> is tested before
  \<open>int\<close> (a Python \<open>bool\<close> is an \<open>int\<close>), then \<open>float\<close>; \<open>SamplingOther\<close> stands for a value
  of any other type. Scores and probabilities are idealised as reals.
\<close>

datatype sampling = SamplingBool bool | SamplingInt int | SamplingFloat real | SamplingOther

text \<open>\<open>softmax(dim=0)\<close> of a 1-D tensor.\<close>

definition softmax :: "real list \<Rightarrow> real list" where
  "softmax xs = map (\<lambda>x. exp x / sum_list (map exp xs)) xs"

text \<open>
  \<open>sort(descending=True, stable=True)\<close>: the values with their indices, largest first,
  equal values in the order of their indices.
\<close>

definition sort_descending :: "real list \<Rightarrow> (real \<times> nat) list" where
  "sort_descending xs = sort_key (\<lambda>(v, i). - v) (zip xs [0..<length xs])"

text \<open>
  \<open>topk(k)\<close>: the \<open>k\<close> largest values with their indices; torch raises when \<open>k\<close> is
  negative or exceeds the size. (Which of several equal values torch picks is not
  specified; here they are picked in the order of their indices.)
\<close>

definition topk :: "real list \<Rightarrow> int \<Rightarrow> error + (real \<times> nat) list" where
  "topk xs k =
     (if k < 0 \<or> int (length xs) < k then Inl RuntimeError
      else Inr (take (nat k) (sort_descending xs)))"

text \<open>
  \<open>multinomial(num_samples, replacement=True)\<close>: torch raises unless \<open>num_samples\<close> is
  positive and the weights are a non-empty list of non-negative numbers with a positive
  sum. The random draws are a parameter: draw \<open>j\<close> is the index \<open>rng j mod n\<close>, so that
  every outcome of the random choice is one of some \<open>rng\<close>.
\<close>

definition multinomial :: "(nat \<Rightarrow> nat) \<Rightarrow> real list \<Rightarrow> int \<Rightarrow> error + nat list" where
  "multinomial rng probs num_samples =
     (if num_samples \<le> 0 \<or> probs = [] \<or> list_ex (\<lambda>p. p < 0) probs \<or> sum_list probs \<le> 0
      then Inl RuntimeError
      else Inr (map (\<lambda>j. rng j mod length probs) [0..<nat num_samples]))"

text \<open>
  The loop of the \<open>float\<close> branch over the sorted probabilities: an entry is taken while
  \<open>cum_prob < sampling\<close>, and the first entry met with \<open>cum_prob\<close> no longer below
  \<open>sampling\<close> ends the loop.
\<close>

fun nucleus :: "real \<Rightarrow> real \<Rightarrow> (real \<times> nat) list \<Rightarrow> (real \<times> nat) list" where
  "nucleus sampling cum_prob [] = []"
| "nucleus sampling cum_prob ((v, i) # rest) =
     (if cum_prob < sampling then (v, i) # nucleus sampling (cum_prob + v) rest else [])"

definition sampling_ids ::
  "(nat \<Rightarrow> nat) \<Rightarrow> real list \<Rightarrow> sampling \<Rightarrow> int \<Rightarrow> error + nat list" where
  "sampling_ids rng weighted_scores sampling beam_size =
     (case sampling of
        SamplingBool b \<Rightarrow>
          (if b then multinomial rng (softmax weighted_scores) beam_size
           else ebind (topk weighted_scores beam_size) (\<lambda>top. Inr (map snd top)))
      | SamplingInt k \<Rightarrow>
          ebind (topk (softmax weighted_scores) k) (\<lambda>top.
          ebind (multinomial rng (map fst top) beam_size) (\<lambda>ids.
            Inr (map (\<lambda>j. snd (top ! j)) ids)))
      | SamplingFloat p \<Rightarrow>
          (let sel = nucleus p 0 (sort_descending (softmax weighted_scores))
           in ebind (multinomial rng (map fst sel) beam_size) (\<lambda>ids.
                Inr (map (\<lambda>j. snd (sel ! j)) ids)))
      | SamplingOther \<Rightarrow> Inl NotImplementedError)"

subsection \<open>\<open>decode_codec\<close>\<close>

text \<open>\<open>torch.tensor(rows)\<close> of a list of lists: ValueError unless all have one length.\<close>

definition as_tensor :: "'a list list \<Rightarrow> error + 'a list list" where
  "as_tensor rows =
     (if list_all (\<lambda>r. length r = length (hd rows)) rows then Inr rows else Inl ValueError)"

text \<open>\<open>pred.reshape(n, -1)\<close> of a 1-D tensor: \<open>n\<close> rows of equal length, or an error.\<close>

definition reshape_rows :: "nat \<Rightarrow> 'a list \<Rightarrow> error + 'a list list" where
  "reshape_rows n xs =
     (if n = 0 \<or> length xs mod n \<noteq> 0 then Inl RuntimeError
      else Inr (map (\<lambda>k. take (length xs div n) (drop (k * (length xs div n)) xs)) [0..<n]))"

text \<open>
  One pass of the decoding loop, for the iteration index \<open>i\<close> and the tokens emitted so
  far: \<open>None\<close> is the \<open>break\<close>, \<open>Some top_ids\<close> the group appended. \<open>score\<close> is
  \<open>self.codec_lm.score\<close> (the language model, given \<open>seq_input[0]\<close> and \<open>prompt[0]\<close>),
  and \<open>rng i k\<close> the random draws of the call of \<open>sampling_ids\<close> for quantizer \<open>k\<close> in
  iteration \<open>i\<close>.
\<close>

definition decode_step ::
  "('e::zero) laura_gen_model \<Rightarrow> ('e list \<Rightarrow> 'e list \<Rightarrow> real list) \<Rightarrow> (nat \<Rightarrow> nat \<Rightarrow> nat \<Rightarrow> nat)
     \<Rightarrow> sampling \<Rightarrow> int \<Rightarrow> 'e list list \<Rightarrow> nat list \<Rightarrow> 'e list
     \<Rightarrow> nat \<Rightarrow> int list list \<Rightarrow> error + int list option" where
  "decode_step m score rng sampling beam_size text text_lengths prompt0 i out_tokens =
     ebind (if out_tokens \<noteq> [] then
              ebind (as_tensor out_tokens) (\<lambda>rows.
                if eos_id m \<in> set (last rows) then Inr None
                else ebind (build_llm_io m text text_lengths
                              (Some [rows]) (Some [length out_tokens]) False)
                       (\<lambda>io. Inr (Some (io_inputs io))))
            else ebind (build_llm_io m text text_lengths None None False)
                   (\<lambda>io. Inr (Some (io_inputs io))))
       (\<lambda>r. case r of
               None \<Rightarrow> Inr None
             | Some seq_input \<Rightarrow>
                 ebind (index0 seq_input 0) (\<lambda>seq0.
                 ebind (reshape_rows (predict_nq m) (score seq0 prompt0)) (\<lambda>pred.
                 ebind (emap (\<lambda>k. ebind (index0 pred k) (\<lambda>pred_k.
                                     ebind (sampling_ids (rng i k) pred_k sampling beam_size)
                                       (\<lambda>ids. index0 ids 0)))
                          [0..<predict_nq m]) (\<lambda>top_ids.
                   Inr (Some (map int top_ids))))))"

text \<open>\<open>for i in range(n)\<close> around that pass, from iteration index \<open>i\<close> on.\<close>

fun decode_loop ::
  "(nat \<Rightarrow> int list list \<Rightarrow> error + int list option) \<Rightarrow> nat \<Rightarrow> nat \<Rightarrow> int list list
     \<Rightarrow> error + int list list" where
  "decode_loop step 0 i out_tokens = Inr out_tokens"
| "decode_loop step (Suc n) i out_tokens =
     ebind (step i out_tokens) (\<lambda>r.
       case r of
         None \<Rightarrow> Inr out_tokens
       | Some top_ids \<Rightarrow> decode_loop step n (Suc i) (out_tokens @ [top_ids]))"

text \<open>
  \<open>decode_codec\<close>. \<open>text\<close> and \<open>aux\<close> are \<open>[T, emb]\<close> tensors, \<open>aux\<close>, the lengths and
  \<open>continual\<close> may be \<open>None\<close>. Adding \<open>None\<close> to a tensor is a TypeError,
  \<open>out_tokens[-1]\<close> of an empty list an IndexError, \<open>aux.size(1)\<close> of \<open>None\<close> an
  AttributeError. The result is the \<open>[1, T, n_q]\<close> tensor of token ids.
\<close>

definition decode_codec ::
  "('e::zero) laura_gen_model \<Rightarrow> ('e list \<Rightarrow> 'e list \<Rightarrow> real list) \<Rightarrow> (nat \<Rightarrow> nat \<Rightarrow> nat \<Rightarrow> nat)
     \<Rightarrow> 'e list \<Rightarrow> 'e list option \<Rightarrow> nat list option \<Rightarrow> nat list option \<Rightarrow> int
     \<Rightarrow> sampling \<Rightarrow> int \<Rightarrow> int list list option \<Rightarrow> error + int list list list" where
  "decode_codec m score rng text_arg aux text_lengths aux_lengths max_length sampling beam_size
       continual =
     (let text0 = (case aux of Some a \<Rightarrow> a @ text_arg | None \<Rightarrow> text_arg)
      in ebind (case text_lengths of
                  None \<Rightarrow> Inr [length text0]
                | Some t_lens \<Rightarrow> (case aux_lengths of
                                    None \<Rightarrow> Inl TypeError
                                  | Some a_lens \<Rightarrow> tensor_add t_lens a_lens)) (\<lambda>text_lengths'.
         let out_tokens = (case continual of None \<Rightarrow> [] | Some c \<Rightarrow> c);
             prompt0 = [lm_embedding m sos_eos] @ text0 @ [lm_embedding m task_id]
         in ebind (decode_loop
                     (decode_step m score rng sampling beam_size [text0] text_lengths' prompt0)
                     (nat max_length) 0 out_tokens) (\<lambda>out_tokens.
            ebind (if out_tokens = [] then Inl IndexError
                   else Inr (if eos_id m \<in> set (last out_tokens)
                             then butlast out_tokens else out_tokens)) (\<lambda>out_tokens.
            ebind (as_tensor out_tokens) (\<lambda>rows.
              case aux of
                None \<Rightarrow> Inl AttributeError
              | Some a \<Rightarrow> Inr [drop (length a) rows])))))"

subsection \<open>\<open>nll\<close>\<close>

text \<open>\<open>x[:, :n]\<close>, the first \<open>n\<close> time positions of every row.\<close>

definition slice_time :: "nat \<Rightarrow> 'a list list \<Rightarrow> 'a list list" where
  "slice_time n x = map (take n) x"

text \<open>
  \<open>make_pad_mask(lengths)\<close> of \<open>funcodec.modules.nets_utils\<close>: one row per length, as
  long as the largest length, true at the positions at or past the row's length.
\<close>

definition make_pad_mask :: "nat list \<Rightarrow> error + bool list list" where
  "make_pad_mask lengths =
     (if lengths = [] then Inl ValueError
      else Inr (map (\<lambda>l. map (\<lambda>j. l \<le> j) [0..<max_list lengths]) lengths))"

text \<open>
  \<open>y.reshape(bb, tt, self.predict_nq, -1)\<close>: the vector of every position is cut into
  \<open>predict_nq\<close> rows.
\<close>

definition split_heads :: "nat \<Rightarrow> 'a list list list \<Rightarrow> error + 'a list list list list" where
  "split_heads nq y = emap (emap (reshape_rows nq)) y"

text \<open>
  The loop that extracts the real logits:
  \<open>y[i, text_len + 1:text_len + 2 + codec_len]\<close> for every example.
\<close>

definition real_logits :: "nat list \<Rightarrow> nat list \<Rightarrow> 'a list list \<Rightarrow> error + 'a list list" where
  "real_logits text_lengths codec_lengths y =
     emap (\<lambda>(i, text_len, codec_len).
             ebind (index0 y i) (\<lambda>y_i.
               Inr (drop (text_len + 1) (take (text_len + 2 + codec_len) y_i))))
          (enumerate 0 (zip text_lengths codec_lengths))"

text \<open>
  The value \<open>pad_list\<close> fills with, 0.0 in the shape of one position of the logits
  (\<open>predict_nq\<close> rows of logits).
\<close>

definition zero_block :: "real list list list list \<Rightarrow> real list list" where
  "zero_block logits_list = map (map (\<lambda>_. 0)) (hd (concat logits_list))"

text \<open>
  \<open>x.reshape(bb, tt * self.predict_nq, ...)\<close> of a tensor \<open>(B, T, n_q, ...)\<close>: the
  positions of a row are laid end to end. The numbers of elements must agree; a tensor
  of other than \<open>bb\<close> rows of \<open>tt\<close> positions is taken to raise.
\<close>

definition merge_time :: "nat \<Rightarrow> nat \<Rightarrow> 'a list list list \<Rightarrow> error + 'a list list" where
  "merge_time bb tt x =
     (if length x = bb \<and> list_all (\<lambda>row. length row = tt) x then Inr (map concat x)
      else Inl RuntimeError)"

text \<open>
  \<open>self.criterion_ce\<close> followed by \<open>sum(-1)\<close>. The criterion is the
  \<open>LabelSmoothingLoss\<close> built in \<open>__init__\<close> with
  \<open>size = lm_out_voc_size // predict_nq\<close>, which is \<open>codebook_size + 1\<close>, and
  \<open>reduction=False\<close>: it asserts that the logits have \<open>size\<close> entries, flattens logits
  and targets and returns one loss vector per position, here summed to a number. What
  that number is for a row of logits and its target id is the parameter \<open>ce\<close>.
\<close>

definition criterion_ce ::
  "'e laura_gen_model \<Rightarrow> (real list \<Rightarrow> int \<Rightarrow> real) \<Rightarrow> real list list list \<Rightarrow> int list list
     \<Rightarrow> error + real list" where
  "criterion_ce m ce x target =
     (if \<not> list_all (list_all (\<lambda>row. int (length row) = codebook_size m + 1)) x
      then Inl AssertionError
      else if length (concat x) \<noteq> length (concat target) then Inl RuntimeError
      else Inr (map2 ce (concat x) (concat target)))"

text \<open>
  \<open>nll.masked_fill_(mask, 0.0)\<close> on 1-D tensors: the mask must have the size of \<open>nll\<close>,
  or size one.
\<close>

definition masked_fill :: "real list \<Rightarrow> bool list \<Rightarrow> error + real list" where
  "masked_fill xs pad_mask =
     (if length pad_mask = length xs then Inr (map2 (\<lambda>x b. if b then 0 else x) xs pad_mask)
      else if length pad_mask = 1 then Inr (map (\<lambda>x. if hd pad_mask then 0 else x) xs)
      else Inl RuntimeError)"

text \<open>\<open>row.reshape(tt, n_q)\<close> of a 1-D row: \<open>tt\<close> frames of \<open>n_q\<close> entries.\<close>

definition split_frames :: "nat \<Rightarrow> nat \<Rightarrow> 'a list \<Rightarrow> error + 'a list list" where
  "split_frames tt nq row =
     (if length row = tt * nq then Inr (map (\<lambda>t. take nq (drop (t * nq) row)) [0..<tt])
      else Inl RuntimeError)"

text \<open>
  \<open>nll\<close>. \<open>codec_lm\<close> is the language model \<open>self.codec_lm\<close>, a parameter: it maps the
  input sequences and the two length tensors to one vector per input position. \<open>codec\<close>
  and \<open>codec_lengths\<close> default to \<open>None\<close>: \<open>None.max()\<close> is an AttributeError and
  subscripting \<open>None\<close> a TypeError. The result is \<open>nll, logits, target, codec_lengths+1\<close>.
\<close>

definition nll ::
  "('e::zero) laura_gen_model
     \<Rightarrow> ('e list list \<Rightarrow> nat list \<Rightarrow> nat list \<Rightarrow> real list list list)
     \<Rightarrow> (real list \<Rightarrow> int \<Rightarrow> real)
     \<Rightarrow> 'e list list \<Rightarrow> nat list \<Rightarrow> int list list list option \<Rightarrow> nat list option
     \<Rightarrow> error + (real list list list \<times> real list list list list \<times> int list list list \<times> nat list)" where
  "nll m codec_lm ce text_arg text_lengths codec_arg codec_lengths_arg =
     (let batch_size = length text_arg
      in ebind (tensor_max text_lengths) (\<lambda>text_max.
         ebind (case codec_lengths_arg of
                  None \<Rightarrow> Inl AttributeError | Some cl \<Rightarrow> Inr cl) (\<lambda>codec_lengths.
         ebind (tensor_max codec_lengths) (\<lambda>codec_max.
         ebind (case codec_arg of
                  None \<Rightarrow> Inl TypeError
                | Some c \<Rightarrow> Inr (slice_time codec_max c)) (\<lambda>codec.
         ebind (build_llm_io m (slice_time text_max text_arg) text_lengths
                  (Some codec) (Some codec_lengths) True) (\<lambda>io.
           case io of
             Inputs sequence x_lengths \<Rightarrow> Inl ValueError
           | InputsTargets sequence0 target0 x_lengths y_lengths \<Rightarrow>
               ebind (tensor_max x_lengths) (\<lambda>x_max.
               ebind (tensor_max y_lengths) (\<lambda>y_max.
                 let sequence = slice_time x_max sequence0;
                     target = slice_time y_max target0;
                     y = codec_lm sequence x_lengths (map (\<lambda>l. l + 1) text_lengths);
                     bb = length y
                 in ebind (split_heads (predict_nq m) y) (\<lambda>y4.
                    ebind (real_logits text_lengths codec_lengths y4) (\<lambda>logits_list.
                    ebind (pad_list logits_list (zero_block logits_list)) (\<lambda>logits.
                      let tt = time_size logits
                      in ebind (merge_time bb tt logits) (\<lambda>x.
                         ebind (merge_time bb tt target) (\<lambda>tgt.
                         ebind (criterion_ce m ce x tgt) (\<lambda>nll_flat.
                         ebind (make_pad_mask (map (\<lambda>l. l * predict_nq m) y_lengths)) (\<lambda>pad_mask.
                         ebind (masked_fill nll_flat (concat pad_mask)) (\<lambda>nll_masked.
                         ebind (reshape_rows batch_size nll_masked) (\<lambda>rows.
                         ebind (emap (split_frames tt (predict_nq m)) rows) (\<lambda>nll_out.
                           Inr (nll_out, logits, target,
                                map (\<lambda>l. l + 1) codec_lengths)))))))))))))))))))"

section \<open>Language-model modules (models/modules/lm_discrete.py)\<close>

subsection \<open>\<open>positionalencoding1d\<close>\<close>





subsection \<open>\<open>CrossAttentionDecoderBlock\<close>\<close>

text \<open>
  A module of one of the two stacks: \<open>nn.Identity()\<close>, or the
  \<open>SelmTransformerDecoderLayer\<close> built for index \<open>k\<close> of the comprehension's range (every
  layer has parameters of its own). The cross-attention layer is built once, whatever
  the arguments.
\<close>

datatype layer = Identity | SelmTransformerDecoderLayer nat

definition build_layers :: "int \<Rightarrow> layer list" where
  "build_layers num_layers =
     (if num_layers = 0 then [Identity]
      else map SelmTransformerDecoderLayer [0..<nat (num_layers - 1)])"

record cross_attention_decoder_block =
  layers :: "layer list"
  layers_regi :: "layer list"
  cross_first :: bool

definition cross_attention_decoder_block_init ::
  "int \<Rightarrow> int \<Rightarrow> bool \<Rightarrow> cross_attention_decoder_block" where
  "cross_attention_decoder_block_init num_layers num_layers_regi cross_first_arg =
     \<lparr>layers = build_layers num_layers,
      layers_regi = build_layers num_layers_regi,
      cross_first = cross_first_arg\<rparr>"

text \<open>
  \<open>nn.Sequential\<close> applies its modules in order. What a decoder layer computes is a
  parameter: \<open>f k\<close> is the forward function of the layer built for index \<open>k\<close>.
\<close>

fun apply_layer :: "(nat \<Rightarrow> 'x \<Rightarrow> 'x) \<Rightarrow> layer \<Rightarrow> 'x \<Rightarrow> 'x" where
  "apply_layer f Identity x = x"
| "apply_layer f (SelmTransformerDecoderLayer k) x = f k x"

definition sequential :: "(nat \<Rightarrow> 'x \<Rightarrow> 'x) \<Rightarrow> layer list \<Rightarrow> 'x \<Rightarrow> 'x" where
  "sequential f ls x = fold (apply_layer f) ls x"

text \<open>
  \<open>CrossAttentionDecoderBlock.forward\<close>; \<open>f\<close> and \<open>g\<close> are the layers of the two stacks,
  \<open>cross\<close> the cross-attention layer.
\<close>

definition block_forward ::
  "(nat \<Rightarrow> 'x \<Rightarrow> 'x) \<Rightarrow> (nat \<Rightarrow> 'x \<Rightarrow> 'x) \<Rightarrow> ('x \<Rightarrow> 'x \<Rightarrow> 'x)
     \<Rightarrow> cross_attention_decoder_block \<Rightarrow> 'x \<times> 'x \<Rightarrow> 'x \<times> 'x" where
  "block_forward f g cross blk args =
     (let x = fst args; regi = snd args
      in if cross_first blk
         then (let x1 = cross x regi;
                   regi1 = sequential g (layers_regi blk) regi;
                   x2 = sequential f (layers blk) x1
               in (x2, regi1))
         else (let x1 = sequential f (layers blk) x;
                   regi1 = sequential g (layers_regi blk) regi;
                   x2 = cross x1 regi1
               in (x2, regi1)))"

section \<open>\<open>WavLMKmeansConformer\<close> (decoder/wavlm_kmeans_conformer.py)\<close>










section \<open>Properties\<close>

subsection \<open>The tensor operations\<close>

lemma emap_Inr_map:
  "(\<And>x. x \<in> set xs \<Longrightarrow> f x = Inr (g x)) \<Longrightarrow> emap f xs = Inr (map g xs)"
  by (induction xs) simp_all

lemma max_list_ge: "x \<in> set xs \<Longrightarrow> x \<le> max_list xs"
  by (induction xs) auto

lemma max_list_mem: "xs \<noteq> [] \<Longrightarrow> max_list xs \<in> set xs"
proof (induction xs)
  case Nil
  then show ?case by simp
next
  case (Cons a xs)
  then show ?case by (cases "xs = []") (auto simp: max_def)
qed

lemma max_list_Max: "xs \<noteq> [] \<Longrightarrow> max_list xs = Max (set xs)"
  by (metis List.finite_set Max_eqI max_list_ge max_list_mem)

lemma ebind_simps [simp]:
  "ebind (Inl e) f = Inl e"
  "ebind (Inr x) f = f x"
  by (simp_all add: ebind_def)

lemma ebind_assoc: "ebind (ebind r f) g = ebind r (\<lambda>x. ebind (f x) g)"
  by (cases r) simp_all

lemma index0_simps [simp]:
  "i < length xs \<Longrightarrow> index0 xs i = Inr (xs ! i)"
  "\<not> i < length xs \<Longrightarrow> index0 xs i = Inl IndexError"
  by (simp_all add: index0_def)

lemma enumerate_map_upt:
  "map (\<lambda>(i, a). f i a) (enumerate 0 xs) = map (\<lambda>i. f i (xs ! i)) [0..<length xs]"
  by (intro nth_equalityI) (simp_all add: nth_enumerate_eq)

lemma pad_list_rows:
  assumes "xs \<noteq> []"
  shows "pad_list xs z = Inr (map (\<lambda>x. x @ replicate (Max (length ` set xs) - length x) z) xs)"
  using assms by (simp add: pad_list_def max_list_Max)

lemma padded_rows_nth:
  assumes "i < B"
  shows "map (\<lambda>x. x @ replicate (Max (length ` set (map f [0..<B])) - length x) z) (map f [0..<B]) ! i
       = f i @ replicate (Max ((\<lambda>j. length (f j)) ` {..<B}) - length (f i)) z"
proof -
  have "length ` set (map f [0..<B]) = (\<lambda>j. length (f j)) ` {..<B}"
    by (simp add: image_image lessThan_atLeast0)
  then show ?thesis using assms by simp
qed

lemma list2_eq: "length xs = 2 \<Longrightarrow> xs ! 0 = a \<Longrightarrow> xs ! 1 = b \<Longrightarrow> xs = [a, b]"
  by (cases xs; cases "tl xs") auto

lemma list3_eq:
  "length xs = 3 \<Longrightarrow> xs ! 0 = a \<Longrightarrow> xs ! 1 = b \<Longrightarrow> xs ! 2 = c \<Longrightarrow> xs = [a, b, c]"
  by (intro nth_equalityI) (auto simp: less_Suc_eq numeral_3_eq_3 numeral_2_eq_2)

subsection \<open>\<open>_pad_two\<close>\<close>

lemma enumerate_zip_map:
  assumes "length l1 = B" "length l2 = B"
  shows "map (\<lambda>(i, a, b). f i a b) (enumerate 0 (zip l1 l2)) = map (\<lambda>i. f i (l1 ! i) (l2 ! i)) [0..<B]"
  using assms by (intro nth_equalityI) (simp_all add: nth_enumerate_eq)

lemma pad_two_rows:
  assumes "length t1_lens = length t1" "length t2_lens = length t1" "length t2 = length t1"
  shows "emap (pad_two_row t1 t2) (enumerate 0 (zip t1_lens t2_lens)) =
         Inr (map (\<lambda>i. take (t1_lens ! i) (t1 ! i) @ take (t2_lens ! i) (t2 ! i)) [0..<length t1])"
proof -
  have "emap (pad_two_row t1 t2) (enumerate 0 (zip t1_lens t2_lens)) =
        Inr (map (\<lambda>(i, a, b). take a (t1 ! i) @ take b (t2 ! i)) (enumerate 0 (zip t1_lens t2_lens)))"
    using assms
    by (intro emap_Inr_map) (auto simp: pad_two_row_def in_set_enumerate_eq)
  then show ?thesis
    using assms by (simp add: enumerate_zip_map [where B = "length t1"])
qed

text \<open>
  Claim C7. For padded batch tensors \<open>t1\<close>, \<open>t2\<close> of one batch size (at least one
  example) with their lengths \<open>t1_lens\<close>, \<open>t2_lens\<close>, \<open>_pad_two\<close> returns a tensor whose
  example \<open>i\<close> is \<open>t1[i, :t1_lens[i]]\<close> followed by \<open>t2[i, :t2_lens[i]]\<close> and then zeros
  up to the longest such concatenation of the batch, together with the lengths
  \<open>t1_lens + t2_lens\<close>.
\<close>

theorem pad_two_spec:
  fixes t1 :: "('a::zero) list list"
  assumes "t1 \<noteq> []" and "length t2 = length t1"
    and "length t1_lens = length t1" and "length t2_lens = length t1"
  defines "row \<equiv> \<lambda>i. take (t1_lens ! i) (t1 ! i) @ take (t2_lens ! i) (t2 ! i)"
  shows "\<exists>res res_len. pad_two t1 t1_lens t2 t2_lens = Inr (res, res_len)
           \<and> length res = length t1 \<and> length res_len = length t1
           \<and> (\<forall>i<length t1.
                 res ! i = row i @ replicate (Max ((\<lambda>j. length (row j)) ` {..<length t1}) - length (row i)) 0
               \<and> res_len ! i = t1_lens ! i + t2_lens ! i)"
proof -
  let ?rows = "map row [0..<length t1]"
  let ?padded = "map (\<lambda>x. x @ replicate (Max (length ` set ?rows) - length x) 0) ?rows"
  have rows: "emap (pad_two_row t1 t2) (enumerate 0 (zip t1_lens t2_lens)) = Inr ?rows"
    unfolding row_def using assms(3,4,2) by (rule pad_two_rows)
  have "?rows \<noteq> []" using assms(1) by simp
  then have pad: "pad_list ?rows 0 = Inr ?padded" by (rule pad_list_rows)
  have eq: "pad_two t1 t1_lens t2 t2_lens = Inr (?padded, map2 (+) t1_lens t2_lens)"
    using assms(3,4) by (simp add: pad_two_def rows pad tensor_add_def)
  have "length ?padded = length t1" "length (map2 (+) t1_lens t2_lens) = length t1"
    using assms(3,4) by simp_all
  moreover have "\<forall>i<length t1.
        ?padded ! i = row i @ replicate (Max ((\<lambda>j. length (row j)) ` {..<length t1}) - length (row i)) 0
      \<and> map2 (+) t1_lens t2_lens ! i = t1_lens ! i + t2_lens ! i"
  proof (intro allI impI conjI)
    fix i assume i: "i < length t1"
    then show "?padded ! i =
        row i @ replicate (Max ((\<lambda>j. length (row j)) ` {..<length t1}) - length (row i)) 0"
      by (rule padded_rows_nth)
    from i assms(3,4) show "map2 (+) t1_lens t2_lens ! i = t1_lens ! i + t2_lens ! i" by simp
  qed
  ultimately show ?thesis using eq by blast
qed

text \<open>The example of the docstring, obtained from the theorem.\<close>

theorem pad_two_spec_witness:
  "pad_two [[1, 2, 3, 0, 0], [- 1, - 2, 0, 0, 0], [100, 0, 0, 0, 0 :: real]] [3, 2, 1]
           [[10, 20, 30, 40, 0], [- 10, - 20, 0, 0, 0], [1000, 0, 0, 0, 0]] [4, 2, 1]
   = Inr ([[1, 2, 3, 10, 20, 30, 40], [- 1, - 2, - 10, - 20, 0, 0, 0], [100, 1000, 0, 0, 0, 0, 0]],
          [7, 4, 2])"
proof -
  let ?t1 = "[[1, 2, 3, 0, 0], [- 1, - 2, 0, 0, 0], [100, 0, 0, 0, 0 :: real]]"
  let ?t2 = "[[10, 20, 30, 40, 0], [- 10, - 20, 0, 0, 0], [1000, 0, 0, 0, 0 :: real]]"
  have h1: "?t1 \<noteq> []" and h2: "length ?t2 = length ?t1"
    and h3: "length [3, 2, 1 :: nat] = length ?t1" and h4: "length [4, 2, 1 :: nat] = length ?t1"
    by simp_all
  from pad_two_spec [OF h1 h2 h3 h4] obtain res res_len where r:
    "pad_two ?t1 [3, 2, 1] ?t2 [4, 2, 1] = Inr (res, res_len)"
    "length res = 3" "length res_len = 3"
    "res ! 0 = [1, 2, 3, 10, 20, 30, 40]" "res ! 1 = [- 1, - 2, - 10, - 20, 0, 0, 0]"
    "res ! 2 = [100, 1000, 0, 0, 0, 0, 0]"
    "res_len ! 0 = 7" "res_len ! 1 = 4" "res_len ! 2 = 2"
    by (auto simp: All_less_Suc lessThan_Suc numeral_2_eq_2 numeral_3_eq_3)
  from r(2,4,5,6) have "res = [[1, 2, 3, 10, 20, 30, 40], [- 1, - 2, - 10, - 20, 0, 0, 0],
      [100, 1000, 0, 0, 0, 0, 0]]" by (rule list3_eq)
  moreover from r(3,7,8,9) have "res_len = [7, 4, 2]" by (rule list3_eq)
  ultimately show ?thesis using r(1) by simp
qed

subsection \<open>\<open>build_llm_io\<close>\<close>

lemma llm_input_rows:
  assumes "length text_lengths = length text"
    and "case codec_emb of None \<Rightarrow> True
         | Some (emb, cl) \<Rightarrow> length emb = length text \<and> length cl = length text"
  shows "emap (llm_input_row m text codec_emb) (enumerate 0 text_lengths) =
         Inr (map (\<lambda>i. [lm_embedding m sos_eos] @ take (text_lengths ! i) (text ! i)
                        @ [lm_embedding m task_id]
                        @ (case codec_emb of None \<Rightarrow> []
                           | Some (emb, cl) \<Rightarrow> take (cl ! i) (emb ! i)))
                [0..<length text])"
proof -
  have "emap (llm_input_row m text codec_emb) (enumerate 0 text_lengths) =
        Inr (map (\<lambda>(i, text_len). [lm_embedding m sos_eos] @ take text_len (text ! i)
                        @ [lm_embedding m task_id]
                        @ (case codec_emb of None \<Rightarrow> []
                           | Some (emb, cl) \<Rightarrow> take (cl ! i) (emb ! i)))
               (enumerate 0 text_lengths))"
    using assms
    by (intro emap_Inr_map)
       (auto simp: llm_input_row_def in_set_enumerate_eq split: option.splits)
  then show ?thesis
    using assms(1) by (simp add: enumerate_map_upt)
qed

lemma broadcast_frame_single:
  "length fr = 1 \<Longrightarrow> broadcast_frame nq fr = Inr (replicate nq (hd fr))"
  by (cases fr) (auto simp: broadcast_frame_def)

lemma target_row_step:
  assumes "list_all (\<lambda>fr. length fr = 1) ci" "l \<le> length ci" "l < length ti"
  shows "ebind (assign_prefix nq l ti (take l ci)) (\<lambda>r. set_frame r l (replicate nq eos))
         = Inr (filled_row nq eos l ci ti)"
proof -
  have "emap (broadcast_frame nq) (take l ci) = Inr (map (\<lambda>fr. replicate nq (hd fr)) (take l ci))"
    using assms(1)
    by (intro emap_Inr_map) (auto simp: list_all_iff broadcast_frame_single dest: in_set_takeD)
  then show ?thesis
    using assms(2,3) by (simp add: assign_prefix_def set_frame_def filled_row_def min_def)
qed

lemma fill_targets_result:
  assumes "distinct (map fst ps)"
    and "\<forall>(i, l) \<in> set ps. i < length c \<and> i < length T \<and> list_all (\<lambda>fr. length fr = 1) (c ! i)
            \<and> l \<le> length (c ! i) \<and> l < length (T ! i)"
  shows "\<exists>T'. fill_targets m c ps T = Inr T' \<and> length T' = length T
           \<and> (\<forall>(i, l) \<in> set ps. T' ! i = filled_row (predict_nq m) (eos_id m) l (c ! i) (T ! i))
           \<and> (\<forall>j. j \<notin> fst ` set ps \<longrightarrow> T' ! j = T ! j)"
  using assms
proof (induction ps arbitrary: T)
  case Nil
  then show ?case by simp
next
  case (Cons p ps)
  obtain i l where p: "p = (i, l)" by (cases p)
  let ?row = "filled_row (predict_nq m) (eos_id m) l (c ! i) (T ! i)"
  let ?T1 = "T[i := ?row]"
  from Cons.prems p have here: "i < length c" "i < length T"
      "list_all (\<lambda>fr. length fr = 1) (c ! i)" "l \<le> length (c ! i)" "l < length (T ! i)"
    and fresh: "i \<notin> fst ` set ps" and dist: "distinct (map fst ps)"
    by auto
  have rest: "\<forall>(j, l') \<in> set ps. j < length c \<and> j < length ?T1
        \<and> list_all (\<lambda>fr. length fr = 1) (c ! j) \<and> l' \<le> length (c ! j) \<and> l' < length (?T1 ! j)"
  proof (intro ballI, clarify)
    fix j l' assume jl: "(j, l') \<in> set ps"
    then have "j \<noteq> i" using fresh by force
    moreover from jl Cons.prems(2) have "j < length c \<and> j < length T
        \<and> list_all (\<lambda>fr. length fr = 1) (c ! j) \<and> l' \<le> length (c ! j) \<and> l' < length (T ! j)"
      by auto
    ultimately show "j < length c \<and> j < length ?T1
        \<and> list_all (\<lambda>fr. length fr = 1) (c ! j) \<and> l' \<le> length (c ! j) \<and> l' < length (?T1 ! j)"
      by simp
  qed
  from Cons.IH [OF dist rest] obtain T' where T':
    "fill_targets m c ps ?T1 = Inr T'" "length T' = length T"
    "\<forall>(j, l') \<in> set ps. T' ! j = filled_row (predict_nq m) (eos_id m) l' (c ! j) (?T1 ! j)"
    "\<forall>j. j \<notin> fst ` set ps \<longrightarrow> T' ! j = ?T1 ! j"
    by auto
  have "fill_targets m c (p # ps) T =
      ebind (ebind (assign_prefix (predict_nq m) l (T ! i) (take l (c ! i)))
               (\<lambda>r. set_frame r l (replicate (predict_nq m) (eos_id m))))
        (\<lambda>row. fill_targets m c ps (T[i := row]))"
    using here(1,2) by (simp add: p ebind_assoc)
  then have step: "fill_targets m c (p # ps) T = Inr T'"
    using target_row_step [OF here(3,4,5), of "predict_nq m" "eos_id m"] T'(1)
    by simp
  moreover have "\<forall>(j, l') \<in> set (p # ps).
      T' ! j = filled_row (predict_nq m) (eos_id m) l' (c ! j) (T ! j)"
  proof (intro ballI, clarify)
    fix j l' assume jl: "(j, l') \<in> set (p # ps)"
    show "T' ! j = filled_row (predict_nq m) (eos_id m) l' (c ! j) (T ! j)"
    proof (cases "(j, l') = p")
      case True
      then show ?thesis using T'(4) fresh here(2) by (simp add: p)
    next
      case False
      with jl have in_ps: "(j, l') \<in> set ps" by simp
      then have "j \<noteq> i" using fresh by force
      with T'(3) in_ps show ?thesis by auto
    qed
  qed
  moreover have "\<forall>j. j \<notin> fst ` set (p # ps) \<longrightarrow> T' ! j = T ! j"
    using T'(4) by (auto simp: p nth_list_update)
  ultimately show ?case using T'(2) by blast
qed

lemma build_llm_io_with_codec:
  fixes m :: "('e::zero) laura_gen_model"
  assumes "text \<noteq> []" "length text_lengths = length text" "length c = length text"
    "length cl = length text" "list_all (list_all (\<lambda>fr. length fr = 1)) c"
  defines "rows \<equiv> map (\<lambda>i. [lm_embedding m sos_eos] @ take (text_lengths ! i) (text ! i)
                        @ [lm_embedding m task_id]
                        @ take (cl ! i) (map (\<lambda>fr. kmeans_emb m (hd fr)) (c ! i)))
                [0..<length text]"
  defines "padded \<equiv> map (\<lambda>x. x @ replicate (Max (length ` set rows) - length x) 0) rows"
  defines "lens \<equiv> map (\<lambda>i. text_lengths ! i + 2 + cl ! i) [0..<length text]"
  shows "build_llm_io m text text_lengths (Some c) (Some cl) need_targets =
     (if need_targets
      then ebind (fill_targets m c (enumerate 0 cl)
                    (replicate (length text) (replicate (max_list cl + 1) (replicate (predict_nq m) 0))))
             (\<lambda>llm_targets. Inr (InputsTargets padded llm_targets lens (map (\<lambda>l. l + 1) cl)))
      else Inr (Inputs padded lens))"
proof -
  let ?emb = "map (map (\<lambda>fr. kmeans_emb m (hd fr))) c"
  have dense: "calc_dense_vector m c cl = Inr ?emb"
    using assms(5) by (simp add: calc_dense_vector_def)
  have "emap (llm_input_row m text (Some (?emb, cl))) (enumerate 0 text_lengths) =
        Inr (map (\<lambda>i. [lm_embedding m sos_eos] @ take (text_lengths ! i) (text ! i)
                        @ [lm_embedding m task_id] @ take (cl ! i) (?emb ! i)) [0..<length text])"
    using llm_input_rows [of text_lengths "text" "Some (?emb, cl)" m] assms(2,3,4) by simp
  also have "map (\<lambda>i. [lm_embedding m sos_eos] @ take (text_lengths ! i) (text ! i)
                        @ [lm_embedding m task_id] @ take (cl ! i) (?emb ! i)) [0..<length text] = rows"
    unfolding rows_def using assms(3) by (intro map_cong) (simp_all add: take_map)
  finally have rows: "emap (llm_input_row m text (Some (?emb, cl))) (enumerate 0 text_lengths) = Inr rows" .
  have "rows \<noteq> []" using assms(1) by (simp add: rows_def)
  then have pad: "pad_list rows 0 = Inr padded"
    unfolding padded_def by (rule pad_list_rows)
  have "tensor_add (map (\<lambda>l. l + 2) text_lengths) cl = Inr (map2 (+) (map (\<lambda>l. l + 2) text_lengths) cl)"
    using assms(2,4) by (simp add: tensor_add_def)
  also have "map2 (+) (map (\<lambda>l. l + 2) text_lengths) cl = lens"
    unfolding lens_def using assms(2,4) by (intro nth_equalityI) simp_all
  finally have add: "tensor_add (map (\<lambda>l. l + 2) text_lengths) cl = Inr lens" .
  have mx: "tensor_max cl = Inr (max_list cl)"
    using assms(1,4) by (auto simp: tensor_max_def)
  from add have add': "tensor_add (map (\<lambda>l. Suc (Suc l)) text_lengths) cl = Inr lens"
    by simp
  show ?thesis
    by (simp add: build_llm_io_def dense rows pad add' mx)
qed

lemma build_llm_io_without_codec:
  fixes m :: "('e::zero) laura_gen_model"
  assumes "text \<noteq> []" "length text_lengths = length text" "codec = None \<or> codec_lengths = None"
  defines "rows \<equiv> map (\<lambda>i. [lm_embedding m sos_eos] @ take (text_lengths ! i) (text ! i)
                        @ [lm_embedding m task_id]) [0..<length text]"
  shows "build_llm_io m text text_lengths codec codec_lengths False =
      Inr (Inputs (map (\<lambda>x. x @ replicate (Max (length ` set rows) - length x) 0) rows)
                  (map (\<lambda>i. text_lengths ! i + 2) [0..<length text]))"
proof -
  have none: "(case (codec, codec_lengths) of
                 (Some c, Some cl) \<Rightarrow> ebind (calc_dense_vector m c cl) (\<lambda>emb. Inr (Some (emb, cl)))
               | _ \<Rightarrow> Inr None) = Inr None"
    using assms(3) by (auto split: option.splits)
  have rows: "emap (llm_input_row m text None) (enumerate 0 text_lengths) = Inr rows"
    using llm_input_rows [of text_lengths "text" None m] assms(2) by (simp add: rows_def)
  have "rows \<noteq> []" using assms(1) by (simp add: rows_def)
  then have pad: "pad_list rows 0 = Inr (map (\<lambda>x. x @ replicate (Max (length ` set rows) - length x) 0) rows)"
    by (rule pad_list_rows)
  have lens: "map (\<lambda>l. l + 2) text_lengths = map (\<lambda>i. text_lengths ! i + 2) [0..<length text]"
    using assms(2) by (intro nth_equalityI) simp_all
  show ?thesis
    unfolding build_llm_io_def none using rows pad lens by simp
qed

lemma fill_targets_zeros:
  assumes "length c = B" "length cl = B" "list_all (list_all (\<lambda>fr. length fr = 1)) c"
    "\<forall>i<B. cl ! i \<le> length (c ! i)"
  shows "\<exists>T. fill_targets m c (enumerate 0 cl)
                (replicate B (replicate (max_list cl + 1) (replicate (predict_nq m) 0))) = Inr T
           \<and> length T = B
           \<and> (\<forall>i<B. T ! i = filled_row (predict_nq m) (eos_id m) (cl ! i) (c ! i)
                                (replicate (max_list cl + 1) (replicate (predict_nq m) 0)))"
proof -
  let ?Z = "replicate B (replicate (max_list cl + 1) (replicate (predict_nq m) (0::int)))"
  have d: "distinct (map fst (enumerate 0 cl))" by simp
  have pre: "\<forall>(i, l) \<in> set (enumerate 0 cl). i < length c \<and> i < length ?Z
       \<and> list_all (\<lambda>fr. length fr = 1) (c ! i) \<and> l \<le> length (c ! i) \<and> l < length (?Z ! i)"
  proof (intro ballI, clarify)
    fix i l assume "(i, l) \<in> set (enumerate 0 cl)"
    then have i: "i < B" and l: "l = cl ! i"
      using assms(2) by (auto simp: in_set_enumerate_eq)
    have "cl ! i \<le> max_list cl" using i assms(2) by (intro max_list_ge) simp
    moreover have "list_all (\<lambda>fr. length fr = 1) (c ! i)"
      using assms(1,3) i by (simp add: list_all_length)
    ultimately show "i < length c \<and> i < length ?Z
       \<and> list_all (\<lambda>fr. length fr = 1) (c ! i) \<and> l \<le> length (c ! i) \<and> l < length (?Z ! i)"
      using i l assms(1,4) by simp
  qed
  from fill_targets_result [OF d pre, of m] obtain T where T:
    "fill_targets m c (enumerate 0 cl) ?Z = Inr T" "length T = length ?Z"
    "\<forall>(i, l) \<in> set (enumerate 0 cl). T ! i = filled_row (predict_nq m) (eos_id m) l (c ! i) (?Z ! i)"
    by blast
  have "\<forall>i<B. T ! i = filled_row (predict_nq m) (eos_id m) (cl ! i) (c ! i)
                                (replicate (max_list cl + 1) (replicate (predict_nq m) 0))"
  proof (intro allI impI)
    fix i assume i: "i < B"
    then have "(i, cl ! i) \<in> set (enumerate 0 cl)"
      using assms(2) by (simp add: in_set_enumerate_eq)
    with T(3) i show "T ! i = filled_row (predict_nq m) (eos_id m) (cl ! i) (c ! i)
                                (replicate (max_list cl + 1) (replicate (predict_nq m) 0))"
      by fastforce
  qed
  with T(1,2) show ?thesis by auto
qed

text \<open>
  Claim C1. On a batch of at least one example whose tensors agree on the batch size
  (and, when targets are asked for, whose codec lengths do not exceed the codec
  tensor's time axis), \<open>build_llm_io\<close> returns; row \<open>i\<close> of its inputs is the sequence
  [sos_eos embedding, \<open>text[i, :text_lengths[i]]\<close>, task_id embedding,
  \<open>codec_emb[i, :codec_lengths[i]]\<close>] (the last part absent unless both \<open>codec\<close> and
  \<open>codec_lengths\<close> are given), followed by zeros up to the longest sequence of the batch;
  and \<open>llm_lengths[i]\<close> is \<open>text_lengths[i] + 2 + codec_lengths[i]\<close>
  (\<open>text_lengths[i] + 2\<close> without codec).
\<close>

theorem build_llm_io_inputs:
  fixes m :: "('e::zero) laura_gen_model"
  assumes "text \<noteq> []" and "length text_lengths = length text"
    and "case (codec, codec_lengths) of
           (Some c, Some cl) \<Rightarrow>
              length c = length text \<and> length cl = length text
              \<and> list_all (list_all (\<lambda>fr. length fr = 1)) c
              \<and> (need_targets \<longrightarrow> (\<forall>i<length text. cl ! i \<le> length (c ! i)))
         | _ \<Rightarrow> \<not> need_targets"
  defines "codec_part \<equiv> \<lambda>i. (case (codec, codec_lengths) of
              (Some c, Some cl) \<Rightarrow> take (cl ! i) (map (\<lambda>fr. kmeans_emb m (hd fr)) (c ! i))
            | _ \<Rightarrow> [])"
  defines "codec_len \<equiv> \<lambda>i. (case (codec, codec_lengths) of (Some c, Some cl) \<Rightarrow> cl ! i | _ \<Rightarrow> 0)"
  defines "seq \<equiv> \<lambda>i. [lm_embedding m sos_eos] @ take (text_lengths ! i) (text ! i)
                        @ [lm_embedding m task_id] @ codec_part i"
  shows "\<exists>io. build_llm_io m text text_lengths codec codec_lengths need_targets = Inr io
           \<and> length (io_inputs io) = length text
           \<and> length (io_lengths io) = length text
           \<and> (\<forall>i<length text.
                 io_inputs io ! i =
                   seq i @ replicate (Max ((\<lambda>j. length (seq j)) ` {..<length text}) - length (seq i)) 0
               \<and> io_lengths io ! i = text_lengths ! i + 2 + codec_len i)"
proof (cases "\<exists>c cl. codec = Some c \<and> codec_lengths = Some cl")
  case True
  then obtain c cl where cc: "codec = Some c" "codec_lengths = Some cl" by blast
  with assms(3) have wf: "length c = length text" "length cl = length text"
      "list_all (list_all (\<lambda>fr. length fr = 1)) c"
      "need_targets \<longrightarrow> (\<forall>i<length text. cl ! i \<le> length (c ! i))"
    by simp_all
  have seq: "seq = (\<lambda>i. [lm_embedding m sos_eos] @ take (text_lengths ! i) (text ! i)
                        @ [lm_embedding m task_id]
                        @ take (cl ! i) (map (\<lambda>fr. kmeans_emb m (hd fr)) (c ! i)))"
    by (simp add: seq_def codec_part_def cc)
  have len: "codec_len = (\<lambda>i. cl ! i)" by (simp add: codec_len_def cc)
  let ?padded = "map (\<lambda>x. x @ replicate (Max (length ` set (map seq [0..<length text])) - length x) 0)
                   (map seq [0..<length text])"
  let ?lens = "map (\<lambda>i. text_lengths ! i + 2 + cl ! i) [0..<length text]"
  have eq: "build_llm_io m text text_lengths codec codec_lengths need_targets =
     (if need_targets
      then ebind (fill_targets m c (enumerate 0 cl)
                    (replicate (length text) (replicate (max_list cl + 1) (replicate (predict_nq m) 0))))
             (\<lambda>llm_targets. Inr (InputsTargets ?padded llm_targets ?lens (map (\<lambda>l. l + 1) cl)))
      else Inr (Inputs ?padded ?lens))"
    unfolding cc seq by (rule build_llm_io_with_codec [OF assms(1,2) wf(1,2,3)])
  have "\<exists>io. build_llm_io m text text_lengths codec codec_lengths need_targets = Inr io
            \<and> io_inputs io = ?padded \<and> io_lengths io = ?lens"
  proof (cases need_targets)
    case True
    with wf(4) have "\<forall>i<length text. cl ! i \<le> length (c ! i)" by simp
    from fill_targets_zeros [OF wf(1,2,3) this, of m] obtain T where
      "fill_targets m c (enumerate 0 cl)
         (replicate (length text) (replicate (max_list cl + 1) (replicate (predict_nq m) 0))) = Inr T"
      by blast
    with eq True show ?thesis by simp
  next
    case False
    with eq show ?thesis by simp
  qed
  then obtain io where io: "build_llm_io m text text_lengths codec codec_lengths need_targets = Inr io"
      "io_inputs io = ?padded" "io_lengths io = ?lens"
    by blast
  have "length (io_inputs io) = length text" "length (io_lengths io) = length text"
    unfolding io(2,3) by simp_all
  moreover have "\<forall>i<length text.
                 io_inputs io ! i =
                   seq i @ replicate (Max ((\<lambda>j. length (seq j)) ` {..<length text}) - length (seq i)) 0
               \<and> io_lengths io ! i = text_lengths ! i + 2 + codec_len i"
    unfolding io(2,3) len
  proof (intro allI impI conjI)
    fix i assume i: "i < length text"
    then show "?padded ! i =
        seq i @ replicate (Max ((\<lambda>j. length (seq j)) ` {..<length text}) - length (seq i)) 0"
      by (rule padded_rows_nth)
    from i show "?lens ! i = text_lengths ! i + 2 + cl ! i" by simp
  qed
  ultimately show ?thesis using io(1) by blast
next
  case False
  then have none: "codec = None \<or> codec_lengths = None" by (cases codec; cases codec_lengths) simp_all
  with assms(3) have nt: "\<not> need_targets" by (auto split: option.splits)
  have seq: "seq = (\<lambda>i. [lm_embedding m sos_eos] @ take (text_lengths ! i) (text ! i)
                        @ [lm_embedding m task_id])"
    using none by (auto simp: seq_def codec_part_def split: option.splits)
  have len: "codec_len = (\<lambda>i. 0)"
    using none by (auto simp: codec_len_def split: option.splits)
  have "build_llm_io m text text_lengths codec codec_lengths need_targets =
      Inr (Inputs (map (\<lambda>x. x @ replicate (Max (length ` set (map seq [0..<length text])) - length x) 0)
                     (map seq [0..<length text]))
                  (map (\<lambda>i. text_lengths ! i + 2) [0..<length text]))"
    unfolding seq using nt build_llm_io_without_codec [OF assms(1,2) none, of m] by simp
  then obtain io where io: "build_llm_io m text text_lengths codec codec_lengths need_targets = Inr io"
      "io_inputs io = map (\<lambda>x. x @ replicate (Max (length ` set (map seq [0..<length text])) - length x) 0)
                     (map seq [0..<length text])"
      "io_lengths io = map (\<lambda>i. text_lengths ! i + 2) [0..<length text]"
    by simp
  have "length (io_inputs io) = length text" "length (io_lengths io) = length text"
    unfolding io(2,3) by simp_all
  moreover have "\<forall>i<length text.
                 io_inputs io ! i =
                   seq i @ replicate (Max ((\<lambda>j. length (seq j)) ` {..<length text}) - length (seq i)) 0
               \<and> io_lengths io ! i = text_lengths ! i + 2 + codec_len i"
    unfolding io(2,3) len
  proof (intro allI impI conjI)
    fix i assume i: "i < length text"
    then show "map (\<lambda>x. x @ replicate (Max (length ` set (map seq [0..<length text])) - length x) 0)
                     (map seq [0..<length text]) ! i =
        seq i @ replicate (Max ((\<lambda>j. length (seq j)) ` {..<length text}) - length (seq i)) 0"
      by (rule padded_rows_nth)
    from i show "map (\<lambda>i. text_lengths ! i + 2) [0..<length text] ! i = text_lengths ! i + 2 + 0"
      by simp
  qed
  ultimately show ?thesis using io(1) by blast
qed

theorem build_llm_io_inputs_witness:
  "\<exists>io. build_llm_io
          \<lparr>codebook_size = 10, predict_nq = 1, lm_embedding = (\<lambda>i. - 1 - i),
           kmeans_emb = (\<lambda>t. 100 + t)\<rparr>
          [[1, 2, 3], [4, 5, 0 :: int]] [3, 2] (Some [[[7], [8]], [[9], [0]]]) (Some [2, 1]) True = Inr io
        \<and> io_inputs io = [[- 1, 1, 2, 3, - 2, 107, 108], [- 1, 4, 5, - 2, 109, 0, 0]]
        \<and> io_lengths io = [7, 5]"
proof -
  let ?m = "\<lparr>codebook_size = 10, predict_nq = 1, lm_embedding = (\<lambda>i. - 1 - i),
           kmeans_emb = (\<lambda>t. 100 + t)\<rparr> :: int laura_gen_model"
  let ?text = "[[1, 2, 3], [4, 5, 0 :: int]]"
  have h1: "?text \<noteq> []" by simp
  have h2: "length [3, 2 :: nat] = length ?text" by simp
  have h3: "case (Some [[[7], [8]], [[9], [0 :: int]]], Some [2, 1 :: nat]) of
           (Some c, Some cl) \<Rightarrow>
              length c = length ?text \<and> length cl = length ?text
              \<and> list_all (list_all (\<lambda>fr. length fr = 1)) c
              \<and> (True \<longrightarrow> (\<forall>i<length ?text. cl ! i \<le> length (c ! i)))
         | _ \<Rightarrow> \<not> True"
    by (simp add: All_less_Suc)
  from build_llm_io_inputs [OF h1 h2 h3, of ?m] obtain io where io:
    "build_llm_io ?m ?text [3, 2] (Some [[[7], [8]], [[9], [0]]]) (Some [2, 1]) True = Inr io"
    "length (io_inputs io) = 2" "length (io_lengths io) = 2"
    "io_inputs io ! 0 = [- 1, 1, 2, 3, - 2, 107, 108]"
    "io_inputs io ! 1 = [- 1, 4, 5, - 2, 109, 0, 0]"
    "io_lengths io ! 0 = 7" "io_lengths io ! 1 = 5"
    by (auto simp: All_less_Suc sos_eos_def task_id_def lessThan_Suc)
  then show ?thesis
    by (metis list2_eq)
qed



subsection \<open>\<open>positionalencoding1d\<close>\<close>




subsection \<open>\<open>CrossAttentionDecoderBlock\<close>\<close>

lemma sequential_Nil [simp]: "sequential f [] x = x"
  by (simp add: sequential_def)

text \<open>
  Claim C10. For \<open>num_layers \<ge> 1\<close> the self-attention stack holds \<open>num_layers - 1\<close>
  decoder layers (likewise \<open>num_layers_regi - 1\<close> for the register stack); with
  \<open>num_layers = 1\<close> the stack is empty and is the identity, as the stack of
  \<open>num_layers = 0\<close> is; and the forward pass applies the cross-attention layer once,
  whatever the numbers of layers.
\<close>

theorem cross_attention_block_layers:
  "(1 \<le> num_layers \<longrightarrow>
      layers (cross_attention_decoder_block_init num_layers num_layers_regi cf) =
        map SelmTransformerDecoderLayer [0..<nat (num_layers - 1)]
    \<and> length (layers (cross_attention_decoder_block_init num_layers num_layers_regi cf)) =
        nat num_layers - 1)
   \<and> (1 \<le> num_layers_regi \<longrightarrow>
      layers_regi (cross_attention_decoder_block_init num_layers num_layers_regi cf) =
        map SelmTransformerDecoderLayer [0..<nat (num_layers_regi - 1)]
    \<and> length (layers_regi (cross_attention_decoder_block_init num_layers num_layers_regi cf)) =
        nat num_layers_regi - 1)
   \<and> layers (cross_attention_decoder_block_init 1 num_layers_regi cf) = []
   \<and> sequential f (layers (cross_attention_decoder_block_init 1 num_layers_regi cf)) x = x
   \<and> sequential f (layers (cross_attention_decoder_block_init 0 num_layers_regi cf)) x = x
   \<and> block_forward f g cross (cross_attention_decoder_block_init 1 1 cf) (x, regi) =
        (cross x regi, regi)
   \<and> block_forward f g cross (cross_attention_decoder_block_init 1 1 cf) (x, regi) =
       block_forward f g cross (cross_attention_decoder_block_init 0 0 cf) (x, regi)
   \<and> fst (block_forward f g cross
            (cross_attention_decoder_block_init num_layers num_layers_regi cf) (x, regi)) =
       (if cf
        then sequential f (build_layers num_layers) (cross x regi)
        else cross (sequential f (build_layers num_layers) x)
                   (sequential g (build_layers num_layers_regi) regi))"
  by (simp add: cross_attention_decoder_block_init_def build_layers_def block_forward_def
        sequential_def Let_def nat_diff_distrib)

theorem cross_attention_block_layers_witness:
  "layers (cross_attention_decoder_block_init 3 2 False) =
      [SelmTransformerDecoderLayer 0, SelmTransformerDecoderLayer 1]
   \<and> layers_regi (cross_attention_decoder_block_init 3 2 False) = [SelmTransformerDecoderLayer 0]"
  using cross_attention_block_layers [where num_layers = 3 and num_layers_regi = 2
      and cf = False and f = "\<lambda>k x. x" and g = "\<lambda>k x. x" and cross = "\<lambda>x y. x"
      and x = "0::nat" and regi = "0::nat"]
  by (simp add: upt_rec)

subsection \<open>\<open>decode_codec\<close>\<close>

lemma ebind_Inr_iff: "ebind r f = Inr y \<longleftrightarrow> (\<exists>x. r = Inr x \<and> f x = Inr y)"
  by (cases r) simp_all

lemma emap_length: "emap f xs = Inr ys \<Longrightarrow> length ys = length xs"
  by (induction xs arbitrary: ys) (auto split: sum.splits)

lemma as_tensor_Inr: "as_tensor rows = Inr rows' \<Longrightarrow> rows' = rows"
  by (simp add: as_tensor_def split: if_splits)

lemma decode_step_break:
  assumes "decode_step m score rng sampling beam_size textb text_lengths prompt_row i out_tokens = Inr None"
  shows "out_tokens \<noteq> [] \<and> eos_id m \<in> set (last out_tokens)"
  using assms
  by (auto simp: decode_step_def ebind_Inr_iff split: if_splits option.splits dest: as_tensor_Inr)

lemma decode_step_group:
  assumes "decode_step m score rng sampling beam_size textb text_lengths prompt_row i out_tokens
             = Inr (Some top_ids)"
  shows "length top_ids = predict_nq m \<and> (out_tokens = [] \<or> eos_id m \<notin> set (last out_tokens))"
proof
  from assms obtain xc where "length xc = predict_nq m" "top_ids = map int xc"
    by (auto simp: decode_step_def ebind_Inr_iff split: if_splits option.splits
             dest!: emap_length)
  then show "length top_ids = predict_nq m" by simp
  from assms show "out_tokens = [] \<or> eos_id m \<notin> set (last out_tokens)"
    by (auto simp: decode_step_def ebind_Inr_iff split: if_splits option.splits
             dest: as_tensor_Inr)
qed

lemma decode_loop_shape:
  assumes brk: "\<And>i out. step i out = Inr None \<Longrightarrow> out \<noteq> [] \<and> eos \<in> set (last out)"
    and grp: "\<And>i out ids. step i out = Inr (Some ids) \<Longrightarrow>
                length ids = nq \<and> (out = [] \<or> eos \<notin> set (last out))"
    and run: "decode_loop step n i out = Inr out'"
  shows "\<exists>new. out' = out @ new \<and> length new \<le> n
           \<and> (\<forall>g\<in>set new. length g = nq)
           \<and> (new \<noteq> [] \<longrightarrow> (out = [] \<or> eos \<notin> set (last out))
                              \<and> (\<forall>g\<in>set (butlast new). eos \<notin> set g))
           \<and> (length new < n \<longrightarrow> out' \<noteq> [] \<and> eos \<in> set (last out'))"
  using run
proof (induction n arbitrary: i out)
  case 0
  then show ?case by simp
next
  case (Suc n)
  from Suc.prems obtain r where r: "step i out = Inr r"
    and rest: "(case r of None \<Rightarrow> Inr out
                | Some top_ids \<Rightarrow> decode_loop step n (Suc i) (out @ [top_ids])) = Inr out'"
    by (auto simp: ebind_Inr_iff)
  show ?case
  proof (cases r)
    case None
    with rest have "out' = out" by simp
    moreover from brk r None have "out \<noteq> [] \<and> eos \<in> set (last out)" by simp
    ultimately show ?thesis by (intro exI [of _ "[]"]) simp
  next
    case (Some ids)
    with rest have run': "decode_loop step n (Suc i) (out @ [ids]) = Inr out'" by simp
    from grp r Some have ids: "length ids = nq" "out = [] \<or> eos \<notin> set (last out)" by simp_all
    from Suc.IH [OF run'] obtain new where new:
      "out' = (out @ [ids]) @ new" "length new \<le> n" "\<forall>g\<in>set new. length g = nq"
      "new \<noteq> [] \<longrightarrow> eos \<notin> set ids \<and> (\<forall>g\<in>set (butlast new). eos \<notin> set g)"
      "length new < n \<longrightarrow> out' \<noteq> [] \<and> eos \<in> set (last out')"
      by auto
    show ?thesis
    proof (intro exI [of _ "ids # new"] conjI)
      show "out' = out @ ids # new" using new(1) by simp
      show "length (ids # new) \<le> Suc n" using new(2) by simp
      show "\<forall>g\<in>set (ids # new). length g = nq" using new(3) ids(1) by simp
      show "ids # new \<noteq> [] \<longrightarrow> (out = [] \<or> eos \<notin> set (last out))
                              \<and> (\<forall>g\<in>set (butlast (ids # new)). eos \<notin> set g)"
        using ids(2) new(4) by auto
      show "length (ids # new) < Suc n \<longrightarrow> out' \<noteq> [] \<and> eos \<in> set (last out')"
        using new(5) by simp
    qed
  qed
qed




lemma decode_codec_Inr:
  fixes m :: "('e::zero) laura_gen_model"
  assumes "decode_codec m score rng text_arg aux text_lengths_arg aux_lengths max_length sampling
          beam_size continual = Inr res"
  shows "\<exists>a tl' out. aux = Some a
      \<and> decode_loop (decode_step m score rng sampling beam_size [a @ text_arg] tl'
              ([lm_embedding m sos_eos] @ (a @ text_arg) @ [lm_embedding m task_id]))
            (nat max_length) 0 (case continual of None \<Rightarrow> [] | Some c \<Rightarrow> c) = Inr out
      \<and> out \<noteq> []
      \<and> res = [drop (length a) (if eos_id m \<in> set (last out) then butlast out else out)]"
proof (cases aux)
  case None
  show ?thesis
    using assms unfolding decode_codec_def Let_def ebind_Inr_iff None option.case
    by (elim exE conjE) simp
next
  case (Some a)
  show ?thesis
    using assms unfolding decode_codec_def Let_def ebind_Inr_iff Some option.case
    by (elim exE conjE) (auto split: if_splits dest!: as_tensor_Inr)
qed

lemma decode_loop_spec:
  fixes m :: "('e::zero) laura_gen_model"
  assumes "decode_loop (decode_step m score rng sampling beam_size textb text_lengths prompt_row) n i out
        = Inr out'"
  shows "\<exists>new. out' = out @ new \<and> length new \<le> n
         \<and> (\<forall>g\<in>set new. length g = predict_nq m)
         \<and> (new \<noteq> [] \<longrightarrow> (out = [] \<or> eos_id m \<notin> set (last out))
                            \<and> (\<forall>g\<in>set (butlast new). eos_id m \<notin> set g))
         \<and> (length new < n \<longrightarrow> out' \<noteq> [] \<and> eos_id m \<in> set (last out'))"
proof (rule decode_loop_shape)
  show "decode_loop (decode_step m score rng sampling beam_size textb text_lengths prompt_row) n i out
        = Inr out'" by (rule assms)
next
  fix i out
  assume "decode_step m score rng sampling beam_size textb text_lengths prompt_row i out = Inr None"
  then show "out \<noteq> [] \<and> eos_id m \<in> set (last out)" by (rule decode_step_break)
next
  fix i out ids
  assume "decode_step m score rng sampling beam_size textb text_lengths prompt_row i out = Inr (Some ids)"
  then show "length ids = predict_nq m \<and> (out = [] \<or> eos_id m \<notin> set (last out))"
    by (rule decode_step_group)
qed


lemmas decode_eval = decode_codec_def decode_step_def build_llm_io_def sos_eos_def task_id_def
  eos_id_def llm_input_row_def pad_list_def reshape_rows_def sampling_ids_def topk_def
  sort_descending_def calc_dense_vector_def as_tensor_def tensor_add_def index0_def
  numeral_nat upt_rec




lemma as_tensor_strip:
  assumes "list_all (\<lambda>r. length r = length (hd out)) out"
  shows "as_tensor (if e \<in> set (last out) then butlast out else out) =
         Inr (if e \<in> set (last out) then butlast out else out)"
proof (cases "butlast out = []")
  case True
  with assms show ?thesis by (simp add: as_tensor_def)
next
  case False
  then have "hd (butlast out) = hd out" by (cases out) auto
  moreover from assms have "list_all (\<lambda>r. length r = length (hd out)) (butlast out)"
    by (auto simp: list_all_iff dest: in_set_butlastD)
  ultimately show ?thesis using assms by (simp add: as_tensor_def)
qed

lemma decode_codec_aux_none_reached:
  fixes m :: "('e::zero) laura_gen_model"
  assumes "(case text_lengths_arg of
              None \<Rightarrow> Inr [length text_arg]
            | Some t_lens \<Rightarrow> (case aux_lengths of
                                None \<Rightarrow> Inl TypeError
                              | Some a_lens \<Rightarrow> tensor_add t_lens a_lens)) = Inr lens"
    and "decode_loop (decode_step m score rng sampling beam_size [text_arg] lens
              ([lm_embedding m sos_eos] @ text_arg @ [lm_embedding m task_id]))
            (nat max_length) 0 (case continual of None \<Rightarrow> [] | Some c \<Rightarrow> c) = Inr out"
    and "out \<noteq> []" and "list_all (\<lambda>r. length r = length (hd out)) out"
  shows "decode_codec m score rng text_arg None text_lengths_arg aux_lengths max_length sampling
           beam_size continual = Inl AttributeError"
  unfolding decode_codec_def Let_def option.case assms(1) ebind_simps assms(2)
  using assms(3) as_tensor_strip [OF assms(4), of "eos_id m"]
  by simp

text \<open>
  Claim C9, amended. No call of \<open>decode_codec\<close> with \<open>aux = None\<close> returns. When
  nothing raises before the final return statement (the lengths are computed, the loop
  completes, \<open>out_tokens\<close> is not empty and its groups have one length; with
  \<open>continual = None\<close> and \<open>max_length \<ge> 1\<close> the completed loop is enough), the call fails
  there, with the AttributeError of \<open>aux.size(1)\<close>.
\<close>

theorem decode_codec_aux_none:
  fixes m :: "('e::zero) laura_gen_model"
  shows
  "(\<forall>res. decode_codec m score rng text_arg None text_lengths_arg aux_lengths max_length sampling
           beam_size continual \<noteq> Inr res)
   \<and> ((case text_lengths_arg of
         None \<Rightarrow> Inr [length text_arg]
       | Some t_lens \<Rightarrow> (case aux_lengths of
                           None \<Rightarrow> Inl TypeError
                         | Some a_lens \<Rightarrow> tensor_add t_lens a_lens)) = Inr lens
      \<and> decode_loop (decode_step m score rng sampling beam_size [text_arg] lens
              ([lm_embedding m sos_eos] @ text_arg @ [lm_embedding m task_id]))
            (nat max_length) 0 (case continual of None \<Rightarrow> [] | Some c \<Rightarrow> c) = Inr out
      \<and> (continual = None \<and> 1 \<le> max_length
           \<or> out \<noteq> [] \<and> list_all (\<lambda>r. length r = length (hd out)) out)
      \<longrightarrow> decode_codec m score rng text_arg None text_lengths_arg aux_lengths max_length sampling
           beam_size continual = Inl AttributeError)"
proof (intro conjI allI impI)
  fix res
  show "decode_codec m score rng text_arg None text_lengths_arg aux_lengths max_length sampling
           beam_size continual \<noteq> Inr res"
  proof
    assume "decode_codec m score rng text_arg None text_lengths_arg aux_lengths max_length sampling
           beam_size continual = Inr res"
    from decode_codec_Inr [OF this] show False by simp
  qed
next
  assume a: "(case text_lengths_arg of
         None \<Rightarrow> Inr [length text_arg]
       | Some t_lens \<Rightarrow> (case aux_lengths of
                           None \<Rightarrow> Inl TypeError
                         | Some a_lens \<Rightarrow> tensor_add t_lens a_lens)) = Inr lens
      \<and> decode_loop (decode_step m score rng sampling beam_size [text_arg] lens
              ([lm_embedding m sos_eos] @ text_arg @ [lm_embedding m task_id]))
            (nat max_length) 0 (case continual of None \<Rightarrow> [] | Some c \<Rightarrow> c) = Inr out
      \<and> (continual = None \<and> 1 \<le> max_length
           \<or> out \<noteq> [] \<and> list_all (\<lambda>r. length r = length (hd out)) out)"
  then have lens: "(case text_lengths_arg of
         None \<Rightarrow> Inr [length text_arg]
       | Some t_lens \<Rightarrow> (case aux_lengths of
                           None \<Rightarrow> Inl TypeError
                         | Some a_lens \<Rightarrow> tensor_add t_lens a_lens)) = Inr lens"
    and run: "decode_loop (decode_step m score rng sampling beam_size [text_arg] lens
              ([lm_embedding m sos_eos] @ text_arg @ [lm_embedding m task_id]))
            (nat max_length) 0 (case continual of None \<Rightarrow> [] | Some c \<Rightarrow> c) = Inr out"
    and alt: "continual = None \<and> 1 \<le> max_length
           \<or> out \<noteq> [] \<and> list_all (\<lambda>r. length r = length (hd out)) out"
    by simp_all
  have "out \<noteq> [] \<and> list_all (\<lambda>r. length r = length (hd out)) out"
  proof (cases "continual = None \<and> 1 \<le> max_length")
    case True
    from decode_loop_spec [OF run] obtain new where new0:
      "out = (case continual of None \<Rightarrow> [] | Some c \<Rightarrow> c) @ new"
      "\<forall>g\<in>set new. length g = predict_nq m"
      "length new < nat max_length \<longrightarrow> out \<noteq> []"
      by blast
    from new0(1) True have "out = new" by simp
    note new = this new0(2,3)
    have ne: "out \<noteq> []"
    proof (cases "length new < nat max_length")
      case True
      with new(3) show ?thesis by simp
    next
      case False
      with True have "0 < length new" by linarith
      with new(1) show ?thesis by simp
    qed
    then have "hd out \<in> set out" by simp
    with new(2) have "length (hd out) = predict_nq m" unfolding new(1) by blast
    with new(2) have "\<forall>g\<in>set out. length g = length (hd out)" unfolding new(1) by simp
    with ne show ?thesis unfolding list_all_iff by blast
  next
    case False
    with alt show ?thesis by simp
  qed
  then have "out \<noteq> []" and "list_all (\<lambda>r. length r = length (hd out)) out"
    by blast+
  with lens run
  show "decode_codec m score rng text_arg None text_lengths_arg aux_lengths max_length sampling
           beam_size continual = Inl AttributeError"
    by (rule decode_codec_aux_none_reached)
qed

theorem decode_codec_aux_none_witness:
  "decode_codec
       \<lparr>codebook_size = 2, predict_nq = 1, lm_embedding = (\<lambda>i. - 1 - i),
        kmeans_emb = (\<lambda>t. 100 + t)\<rparr>
       (\<lambda>s p. if length s < 4 then [5, 0, 0] else [0, 0, 5]) (\<lambda>i k j. 0)
       [7 :: int] None None None 10 (SamplingBool False) 1 None = Inl AttributeError"
proof -
  let ?m = "\<lparr>codebook_size = 2, predict_nq = 1, lm_embedding = (\<lambda>i. - 1 - i),
        kmeans_emb = (\<lambda>t. 100 + t)\<rparr> :: int laura_gen_model"
  let ?score = "(\<lambda>s p. if length s < 4 then [5, 0, 0] else [0, 0, 5]) :: int list \<Rightarrow> int list \<Rightarrow> real list"
  have run: "decode_loop (decode_step ?m ?score (\<lambda>i k j. 0) (SamplingBool False) 1 [[7]] [1]
              ([lm_embedding ?m sos_eos] @ [7] @ [lm_embedding ?m task_id]))
            (nat 10) 0 (case None of None \<Rightarrow> [] | Some c \<Rightarrow> c) = Inr [[0], [2]]"
    by (simp add: decode_eval)
  from decode_codec_aux_none [where m = "?m" and score = "?score" and rng = "\<lambda>i k j. 0"
      and text_arg = "[7]" and text_lengths_arg = None and aux_lengths = None and max_length = 10
      and sampling = "SamplingBool False" and beam_size = 1 and continual = None
      and lens = "[1]" and out = "[[0], [2]]", THEN conjunct2] run
  show ?thesis by simp
qed

text \<open>
  The claim as first stated, that every call with \<open>aux = None\<close> and \<open>max_length \<ge> 1\<close>
  fails at the final return statement, does not hold: with \<open>text_lengths\<close> given and
  \<open>aux_lengths = None\<close> the call fails before the loop, at
  \<open>text_lengths + aux_lengths\<close>, with a TypeError.
\<close>

theorem decode_codec_aux_none_counterexample:
  "decode_codec
       \<lparr>codebook_size = 2, predict_nq = 1, lm_embedding = (\<lambda>i. - 1 - i),
        kmeans_emb = (\<lambda>t. 100 + t)\<rparr>
       (\<lambda>s p. if length s < 4 then [5, 0, 0] else [0, 0, 5]) (\<lambda>i k j. 0)
       [7 :: int] None (Some [1]) None 10 (SamplingBool False) 1 None = Inl TypeError"
  by (simp add: decode_codec_def)

subsection \<open>\<open>sampling_ids\<close>\<close>


lemma softmax_length [simp]: "length (softmax xs) = length xs"
  by (simp add: softmax_def)


lemma sort_descending_length [simp]: "length (sort_descending xs) = length xs"
  by (simp add: sort_descending_def)






















text \<open>
  Evaluated calls: the two highest of three scores; nucleus sampling with \<open>p = 3/4\<close>
  over two equal probabilities, both of which are needed to reach \<open>p\<close>; and \<open>p = 0\<close>,
  where no entry is taken and \<open>multinomial\<close> raises on the empty list.
\<close>

lemma sampling_ids_example:
  "sampling_ids (\<lambda>j. j) [1, 3, 2] (SamplingBool False) 2 = Inr [1, 2]"
  "sampling_ids (\<lambda>j. j) [0, 0] (SamplingFloat (3 / 4)) 3 = Inr [0, 1, 0]"
  "sampling_ids (\<lambda>j. j) [0, 0] (SamplingFloat 0) 1 = Inl RuntimeError"
  by (simp_all add: sampling_ids_def topk_def sort_descending_def softmax_def multinomial_def
        numeral_nat upt_rec)

subsection \<open>\<open>WavLMKmeansConformer.forward\<close>\<close>

lemma fold_update_length [simp]: "length (fold (\<lambda>j r. r[j := v]) idx row) = length row"
  by (induction idx arbitrary: row) simp_all





subsection \<open>\<open>nll\<close>: the logits kept and the masked loss\<close>

lemma concat_equal_len:
  "\<forall>r\<in>set rows. length r = L \<Longrightarrow> length (concat rows) = length rows * L"
  by (induction rows) simp_all

lemma take_drop_concat:
  "\<forall>r\<in>set rows. length r = L \<Longrightarrow> k < length rows \<Longrightarrow>
     take L (drop (k * L) (concat rows)) = rows ! k"
proof (induction rows arbitrary: k)
  case Nil
  then show ?case by simp
next
  case (Cons r rows)
  show ?case
  proof (cases k)
    case 0
    with Cons.prems show ?thesis by simp
  next
    case (Suc k')
    with Cons.prems have "take L (drop (k' * L) (concat rows)) = rows ! k'"
      by (intro Cons.IH) simp_all
    with Cons.prems Suc show ?thesis by simp
  qed
qed

lemma concat_equal_nth:
  assumes "\<forall>r\<in>set rows. length r = L" "i < length rows" "j < L"
  shows "concat rows ! (i * L + j) = rows ! i ! j"
proof -
  have "rows ! i ! j = take L (drop (i * L) (concat rows)) ! j"
    using take_drop_concat [OF assms(1,2)] by simp
  also have "\<dots> = drop (i * L) (concat rows) ! j" using assms(3) by simp
  also have "\<dots> = concat rows ! (i * L + j)"
  proof -
    have "i * L + j < length (concat rows)"
    proof -
      have "i * L + j < i * L + L" using assms(3) by simp
      also have "\<dots> = Suc i * L" by simp
      also have "\<dots> \<le> length rows * L" using assms(2) by (intro mult_le_mono1) simp
      finally show ?thesis using concat_equal_len [OF assms(1)] by simp
    qed
    then show ?thesis by simp
  qed
  finally show ?thesis by simp
qed

lemma reshape_rows_concat:
  assumes "rows \<noteq> []" "\<forall>r\<in>set rows. length r = L"
  shows "reshape_rows (length rows) (concat rows) = Inr rows"
proof -
  have len: "length (concat rows) = length rows * L" using assms(2) by (rule concat_equal_len)
  have n: "length rows \<noteq> 0" using assms(1) by simp
  then have d: "length (concat rows) div length rows = L" by (simp add: len)
  have "map (\<lambda>k. take L (drop (k * L) (concat rows))) [0..<length rows] = rows"
    using take_drop_concat [OF assms(2)] by (intro nth_equalityI) simp_all
  then show ?thesis using n by (simp add: reshape_rows_def d len)
qed

lemma split_frames_ok:
  assumes "length row = tt * nq"
  shows "\<exists>F. split_frames tt nq row = Inr F \<and> length F = tt
           \<and> (\<forall>t<tt. \<forall>q<nq. F ! t ! q = row ! (t * nq + q))"
proof -
  have "take nq (drop (t * nq) row) ! q = row ! (t * nq + q)" if "t < tt" "q < nq" for t q
  proof -
    have "t * nq + q < t * nq + nq" using that by simp
    also have "\<dots> = Suc t * nq" by simp
    also have "\<dots> \<le> tt * nq" using that by (intro mult_le_mono1) simp
    finally have "t * nq + q < length row" using assms by simp
    with that show ?thesis by simp
  qed
  then show ?thesis using assms by (simp add: split_frames_def)
qed

lemma reshape_rows_vector:
  assumes "0 < nq" "length v = nq * V"
  shows "reshape_rows nq v = Inr (map (\<lambda>k. take V (drop (k * V) v)) [0..<nq])"
  using assms by (simp add: reshape_rows_def)

lemma max_list_mult: "max_list (map (\<lambda>l. l * n) xs) = max_list xs * n"
  by (induction xs) (auto simp: max_def)

lemma max_list_Suc: "xs \<noteq> [] \<Longrightarrow> max_list (map (\<lambda>l. l + 1) xs) = max_list xs + 1"
proof (induction xs)
  case Nil
  then show ?case by simp
next
  case (Cons a xs)
  then show ?case by (cases "xs = []") simp_all
qed


lemma max_list_upt_map:
  assumes "xs \<noteq> []"
  shows "Max ((\<lambda>j. f j) ` {..<length xs}) = max_list (map f [0..<length xs])"
proof -
  have "map f [0..<length xs] \<noteq> []" using assms by simp
  then have "max_list (map f [0..<length xs]) = Max (set (map f [0..<length xs]))"
    by (rule max_list_Max)
  then show ?thesis by (simp add: lessThan_atLeast0)
qed

text \<open>The input and target tensors that nll obtains from build_llm_io.\<close>

lemma nll_llm_io:
  fixes m :: "('e::zero) laura_gen_model"
  assumes ne: "text_arg \<noteq> []"
    and len: "length text_lengths = length text_arg" "length c = length text_arg"
      "length cl = length text_arg"
    and frames: "list_all (list_all (\<lambda>fr. length fr = 1)) c"
    and valid: "\<forall>i<length text_arg. text_lengths ! i \<le> length (text_arg ! i) \<and> cl ! i \<le> length (c ! i)"
  shows "\<exists>sequence target.
      build_llm_io m (slice_time (max_list text_lengths) text_arg) text_lengths
        (Some (slice_time (max_list cl) c)) (Some cl) True =
        Inr (InputsTargets sequence target
               (map (\<lambda>i. text_lengths ! i + 2 + cl ! i) [0..<length text_arg])
               (map (\<lambda>l. l + 1) cl))
    \<and> length sequence = length text_arg \<and> length target = length text_arg
    \<and> (\<forall>i<length text_arg.
          length (sequence ! i) =
            max_list (map (\<lambda>i. text_lengths ! i + 2 + cl ! i) [0..<length text_arg])
        \<and> sequence ! i ! (text_lengths ! i + 1) = lm_embedding m task_id
        \<and> (\<forall>j<cl ! i. sequence ! i ! (text_lengths ! i + 2 + j) = kmeans_emb m (hd (c ! i ! j)))
        \<and> length (target ! i) = max_list cl + 1
        \<and> (\<forall>fr\<in>set (target ! i). length fr = predict_nq m))"
proof -
  let ?B = "length text_arg"
  let ?text = "slice_time (max_list text_lengths) text_arg"
  let ?codec = "slice_time (max_list cl) c"
  let ?seq = "\<lambda>i. [lm_embedding m sos_eos] @ take (text_lengths ! i) (?text ! i)
                        @ [lm_embedding m task_id]
                        @ take (cl ! i) (map (\<lambda>fr. kmeans_emb m (hd fr)) (?codec ! i))"
  let ?lens = "map (\<lambda>i. text_lengths ! i + 2 + cl ! i) [0..<?B]"
  let ?Z = "replicate (max_list cl + 1) (replicate (predict_nq m) (0::int))"
  have t1: "?text \<noteq> []" "length text_lengths = length ?text" "length ?codec = length ?text"
    "length cl = length ?text"
    using ne len by (simp_all add: slice_time_def)
  have B: "length ?text = ?B" by (simp add: slice_time_def)
  have fr: "list_all (list_all (\<lambda>fr. length fr = 1)) ?codec"
    using frames by (auto simp: slice_time_def list_all_iff dest: in_set_takeD)
  have tl_ok: "text_lengths ! i \<le> length (?text ! i)" if "i < ?B" for i
  proof -
    have "text_lengths ! i \<le> max_list text_lengths"
      using that len(1) by (intro max_list_ge) simp
    with valid that show ?thesis by (simp add: slice_time_def)
  qed
  have cl_ok: "cl ! i \<le> length (?codec ! i)" if "i < ?B" for i
  proof -
    have "cl ! i \<le> max_list cl" using that len(3) by (intro max_list_ge) simp
    with valid that len(2) show ?thesis by (simp add: slice_time_def)
  qed
  have seq_len: "length (?seq i) = text_lengths ! i + 2 + cl ! i" if "i < ?B" for i
    using tl_ok [OF that] cl_ok [OF that] by (simp add: min_def)
  have cl_all: "\<forall>i<?B. cl ! i \<le> length (?codec ! i)" using cl_ok by simp
  from fill_targets_zeros [OF t1(3) [unfolded B] len(3) fr cl_all, of m]
  obtain T where T:
    "fill_targets m ?codec (enumerate 0 cl) (replicate ?B ?Z) = Inr T" "length T = ?B"
    "\<forall>i<?B. T ! i = filled_row (predict_nq m) (eos_id m) (cl ! i) (?codec ! i) ?Z"
    by blast
  let ?rows = "map ?seq [0..<length ?text]"
  let ?padded = "map (\<lambda>x. x @ replicate (Max (length ` set ?rows) - length x) 0) ?rows"
  have io: "build_llm_io m ?text text_lengths (Some ?codec) (Some cl) True =
      Inr (InputsTargets ?padded T ?lens (map (\<lambda>l. l + 1) cl))"
    using build_llm_io_with_codec [OF t1 fr, of m True] T(1) by (simp add: B)
  have lens_eq: "map length ?rows = ?lens"
    using seq_len by (simp add: B)
  have "?rows \<noteq> []" using ne by (simp add: B)
  then have "map length ?rows \<noteq> []" by (simp only: map_is_Nil_conv not_False_eq_True)
  then have "max_list (map length ?rows) = Max (set (map length ?rows))"
    by (rule max_list_Max)
  then have "Max (length ` set ?rows) = max_list (map length ?rows)"
    by (simp only: set_map)
  then have mx: "Max (length ` set ?rows) = max_list ?lens" by (simp only: lens_eq)
  have row_facts: "length (?padded ! i) = max_list ?lens
        \<and> ?padded ! i ! (text_lengths ! i + 1) = lm_embedding m task_id
        \<and> (\<forall>j<cl ! i. ?padded ! i ! (text_lengths ! i + 2 + j) = kmeans_emb m (hd (c ! i ! j)))
        \<and> length (T ! i) = max_list cl + 1
        \<and> (\<forall>fr\<in>set (T ! i). length fr = predict_nq m)" if i: "i < ?B" for i
  proof -
    have le: "length (?seq i) \<le> max_list ?lens"
    proof -
      have "?lens ! i \<in> set ?lens" using i by (intro nth_mem) simp
      then have "?lens ! i \<le> max_list ?lens" by (rule max_list_ge)
      then show ?thesis using i seq_len [OF i] by simp
    qed
    have ri: "?rows ! i = ?seq i" using i by (simp add: B)
    have "i < length ?rows" using i by (simp add: B)
    then have "?padded ! i
        = ?rows ! i @ replicate (Max (length ` set ?rows) - length (?rows ! i)) 0"
      by (rule nth_map)
    then have pi: "?padded ! i = ?seq i @ replicate (max_list ?lens - length (?seq i)) 0"
      unfolding mx ri .
    have a: "length (?padded ! i) = max_list ?lens" using le by (simp only: pi) simp
    have "length (take (text_lengths ! i) (?text ! i)) = text_lengths ! i"
      using tl_ok [OF i] by simp
    then have b: "?padded ! i ! (text_lengths ! i + 1) = lm_embedding m task_id"
      by (simp only: pi) (simp add: nth_append)
    have ci: "cl ! i \<le> max_list cl" using i len(3) by (intro max_list_ge) simp
    have e: "\<forall>j<cl ! i. ?padded ! i ! (text_lengths ! i + 2 + j) = kmeans_emb m (hd (c ! i ! j))"
    proof (intro allI impI)
      fix j assume j: "j < cl ! i"
      have tk: "length (take (text_lengths ! i) (?text ! i)) = text_lengths ! i"
        using tl_ok [OF i] by simp
      have "text_lengths ! i + 2 + j < length (?seq i)" using j seq_len [OF i] by simp
      then have "?padded ! i ! (text_lengths ! i + 2 + j) = ?seq i ! (text_lengths ! i + 2 + j)"
        by (simp only: pi nth_append if_True)
      also have "\<dots> = take (cl ! i) (map (\<lambda>fr. kmeans_emb m (hd fr)) (?codec ! i)) ! j"
        using tk by (simp add: nth_append)
      also have "\<dots> = kmeans_emb m (hd (?codec ! i ! j))"
        using j cl_ok [OF i] by simp
      also have "?codec ! i ! j = c ! i ! j"
        using j ci i len(2) by (simp add: slice_time_def)
      finally show "?padded ! i ! (text_lengths ! i + 2 + j) = kmeans_emb m (hd (c ! i ! j))" .
    qed
    have Ti: "T ! i = (map (\<lambda>fr. replicate (predict_nq m) (hd fr)) (take (cl ! i) (?codec ! i))
                        @ drop (cl ! i) ?Z)[cl ! i := replicate (predict_nq m) (eos_id m)]"
      using T(3) i by (simp add: filled_row_def)
    have c: "length (T ! i) = max_list cl + 1"
      using ci cl_ok [OF i] by (simp add: Ti min_def)
    have d: "\<forall>fr\<in>set (T ! i). length fr = predict_nq m"
    proof
      fix fr assume "fr \<in> set (T ! i)"
      then have "fr \<in> insert (replicate (predict_nq m) (eos_id m))
          (set (map (\<lambda>fr. replicate (predict_nq m) (hd fr)) (take (cl ! i) (?codec ! i))
                        @ drop (cl ! i) ?Z))"
        unfolding Ti using set_update_subset_insert by fast
      moreover have "\<forall>g\<in>set (drop (cl ! i) ?Z). length g = predict_nq m"
      proof
        fix g assume "g \<in> set (drop (cl ! i) ?Z)"
        then have "g \<in> set ?Z" by (rule in_set_dropD)
        then show "length g = predict_nq m" by (simp only: set_replicate_conv_if split: if_splits) simp
      qed
      ultimately show "length fr = predict_nq m" by (simp only: set_append set_map) auto
    qed
    from a b e c d show ?thesis by (intro conjI)
  qed
  have "length ?padded = ?B" by (simp add: B)
  with io T(2) row_facts show ?thesis by blast
qed


lemma heads_shape:
  assumes "length v = nq * V" "k < nq"
  shows "length (take V (drop (k * V) v)) = V"
proof -
  have "Suc k * V \<le> nq * V" using assms(2) by (intro mult_le_mono1) simp
  then show ?thesis using assms(1) by simp
qed

lemma heads_zero:
  assumes "length v = nq * V"
  shows "map (map (\<lambda>_. 0::real)) (map (\<lambda>k. take V (drop (k * V) v)) [0..<nq])
           = replicate nq (replicate V 0)"
  using heads_shape [OF assms] by (intro nth_equalityI) (simp_all add: map_replicate_const)

lemma real_logits_rows:
  assumes "length text_lengths = length y" "length cl = length y"
  shows "real_logits text_lengths cl y =
           Inr (map (\<lambda>i. drop (text_lengths ! i + 1)
                            (take (text_lengths ! i + 2 + cl ! i) (y ! i))) [0..<length y])"
proof -
  let ?zs = "enumerate 0 (zip text_lengths cl)"
  let ?g = "\<lambda>(i, text_len, codec_len). drop (text_len + 1) (take (text_len + 2 + codec_len) (y ! i))"
  have "emap (\<lambda>(i, text_len, codec_len).
             ebind (index0 y i) (\<lambda>y_i.
               Inr (drop (text_len + 1) (take (text_len + 2 + codec_len) y_i)))) ?zs
          = Inr (map ?g ?zs)"
  proof (rule emap_Inr_map)
    fix x assume "x \<in> set ?zs"
    then have "fst x < length y" using assms by (auto simp: in_set_enumerate_eq)
    then show "(case x of (i, text_len, codec_len) \<Rightarrow>
             ebind (index0 y i) (\<lambda>y_i.
               Inr (drop (text_len + 1) (take (text_len + 2 + codec_len) y_i)))) = Inr (?g x)"
      by (cases x) auto
  qed
  moreover have "map ?g ?zs = map (\<lambda>i. drop (text_lengths ! i + 1)
                            (take (text_lengths ! i + 2 + cl ! i) (y ! i))) [0..<length y]"
    using assms by (intro nth_equalityI) (simp_all add: nth_enumerate_eq)
  ultimately show ?thesis by (simp only: real_logits_def)
qed


text \<open>The logits that nll keeps from the output y of the language model.\<close>

lemma nll_logits_stage:
  fixes y :: "real list list list"
  assumes nq: "0 < nq" and ne: "y \<noteq> []"
    and len: "length text_lengths = length y" "length cl = length y"
    and ylen: "\<forall>i<length y. text_lengths ! i + 2 + cl ! i \<le> length (y ! i)"
    and yvec: "\<forall>i<length y. \<forall>v\<in>set (y ! i). length v = nq * V"
  shows "\<exists>y4 logits_list logits.
      split_heads nq y = Inr y4
    \<and> real_logits text_lengths cl y4 = Inr logits_list
    \<and> pad_list logits_list (zero_block logits_list) = Inr logits
    \<and> length logits = length y
    \<and> time_size logits = max_list cl + 1
    \<and> (\<forall>i<length y.
          length (logits ! i) = max_list cl + 1
        \<and> (\<forall>b\<in>set (logits ! i). length b = nq \<and> (\<forall>r\<in>set b. length r = V))
        \<and> (\<forall>t\<le>cl ! i. logits ! i ! t =
              map (\<lambda>k. take V (drop (k * V) (y ! i ! (text_lengths ! i + 1 + t)))) [0..<nq])
        \<and> (\<forall>t. cl ! i < t \<and> t \<le> max_list cl \<longrightarrow>
              logits ! i ! t = replicate nq (replicate V 0)))"
proof -
  let ?B = "length y"
  let ?blk = "\<lambda>v. map (\<lambda>k. take V (drop (k * V) v)) [0..<nq]"
  let ?tt = "max_list cl + 1"
  define y4 where "y4 = map (map ?blk) y"
  define ll where "ll = map (\<lambda>i. drop (text_lengths ! i + 1)
                            (take (text_lengths ! i + 2 + cl ! i) (y4 ! i))) [0..<?B]"
  define Z where "Z = zero_block ll"
  define logits where "logits = map (\<lambda>x. x @ replicate (?tt - length x) Z) ll"
  have yvec': "length v = nq * V" if "row \<in> set y" "v \<in> set row" for row v
  proof -
    from that(1) obtain i where "i < ?B" "row = y ! i" by (auto simp: in_set_conv_nth)
    with yvec that(2) show ?thesis by blast
  qed
  have s1: "split_heads nq y = Inr y4"
    unfolding split_heads_def y4_def
  proof (rule emap_Inr_map)
    fix row assume row: "row \<in> set y"
    show "emap (reshape_rows nq) row = Inr (map ?blk row)"
    proof (rule emap_Inr_map)
      fix v assume "v \<in> set row"
      with row have "length v = nq * V" by (rule yvec')
      with nq show "reshape_rows nq v = Inr (?blk v)" by (rule reshape_rows_vector)
    qed
  qed
  have l4: "length y4 = ?B" by (simp add: y4_def)
  have s2: "real_logits text_lengths cl y4 = Inr ll"
    using real_logits_rows [of text_lengths y4 cl] len by (simp only: l4 ll_def)
  have y4i: "y4 ! i = map ?blk (y ! i)" if "i < ?B" for i using that by (simp add: y4_def)
  have lli: "ll ! i = drop (text_lengths ! i + 1)
                        (take (text_lengths ! i + 2 + cl ! i) (map ?blk (y ! i)))"
    if "i < ?B" for i using that by (simp add: ll_def y4i)
  have lll: "length (ll ! i) = cl ! i + 1" if "i < ?B" for i
  proof -
    have "text_lengths ! i + 2 + cl ! i \<le> length (y ! i)" using ylen that by blast
    then show ?thesis by (simp add: lli [OF that] min_def)
  qed
  have llB: "length ll = ?B" by (simp add: ll_def)
  have llne: "ll \<noteq> []" using ne by (simp add: ll_def)
  have mll: "map length ll = map (\<lambda>l. l + 1) cl"
    using lll len by (intro nth_equalityI) (simp_all add: llB)
  have "cl \<noteq> []" using ne len by auto
  then have "max_list (map (\<lambda>l. l + 1) cl) = ?tt" by (rule max_list_Suc)
  then have mx: "max_list (map length ll) = ?tt" by (simp only: mll)
  have s3: "pad_list ll (zero_block ll) = Inr logits"
    using llne by (simp only: pad_list_def logits_def Z_def mx if_False)
  have lB: "length logits = ?B" by (simp add: logits_def llB)
  have li: "logits ! i = ll ! i @ replicate (max_list cl - cl ! i) Z" if "i < ?B" for i
    using that by (simp add: logits_def llB lll)
  have cle: "cl ! i \<le> max_list cl" if "i < ?B" for i
    using that len by (intro max_list_ge) simp
  have lil: "length (logits ! i) = ?tt" if "i < ?B" for i
    using cle [OF that] by (simp add: li [OF that] lll [OF that])
  have ts: "time_size logits = ?tt"
  proof -
    have "0 < ?B" using ne by simp
    then have "logits = logits ! 0 # tl logits"
      using lB by (cases logits) simp_all
    then have "time_size logits = length (logits ! 0)"
      by (metis list.simps(5) time_size_def)
    with lil [of 0] \<open>0 < ?B\<close> show ?thesis by simp
  qed
  have real: "logits ! i ! t = ?blk (y ! i ! (text_lengths ! i + 1 + t))"
    if i: "i < ?B" and t: "t \<le> cl ! i" for i t
  proof -
    have a: "text_lengths ! i + 2 + cl ! i \<le> length (y ! i)" using ylen i by simp
    have "logits ! i ! t = ll ! i ! t" using t lll [OF i] by (simp add: li [OF i] nth_append)
    also have "\<dots> = ?blk (y ! i ! (text_lengths ! i + 1 + t))"
      using a t by (simp add: lli [OF i])
    finally show ?thesis .
  qed
  have Zv: "Z = replicate nq (replicate V 0)"
  proof -
    have "0 < ?B" using ne by simp
    then have l0: "length (ll ! 0) = cl ! 0 + 1" by (rule lll)
    have "ll = ll ! 0 # tl ll" using llne by (cases ll) simp_all
    moreover have "ll ! 0 = ll ! 0 ! 0 # tl (ll ! 0)" using l0 by (cases "ll ! 0") simp_all
    ultimately have "hd (concat ll) = ll ! 0 ! 0"
      by (metis concat.simps(2) append_Cons list.sel(1))
    also have "\<dots> = logits ! 0 ! 0" using l0 by (simp add: li [OF \<open>0 < ?B\<close>] nth_append)
    also have "\<dots> = ?blk (y ! 0 ! (text_lengths ! 0 + 1 + 0))"
      using \<open>0 < ?B\<close> by (intro real) simp_all
    finally have h: "hd (concat ll) = ?blk (y ! 0 ! (text_lengths ! 0 + 1))" by simp
    have "text_lengths ! 0 + 1 < length (y ! 0)" using ylen \<open>0 < ?B\<close> by fastforce
    then have "y ! 0 ! (text_lengths ! 0 + 1) \<in> set (y ! 0)" by (rule nth_mem)
    with yvec \<open>0 < ?B\<close> have "length (y ! 0 ! (text_lengths ! 0 + 1)) = nq * V" by blast
    then show ?thesis unfolding Z_def zero_block_def h by (rule heads_zero)
  qed
  have pad: "logits ! i ! t = replicate nq (replicate V 0)"
    if i: "i < ?B" and t: "cl ! i < t" "t \<le> max_list cl" for i t
    using t lll [OF i] by (simp add: li [OF i] nth_append Zv)
  have blkshape: "length (?blk v) = nq \<and> (\<forall>r\<in>set (?blk v). length r = V)"
    if "length v = nq * V" for v :: "real list"
    using heads_shape [OF that] by auto
  have shape: "length b = nq \<and> (\<forall>r\<in>set b. length r = V)"
    if i: "i < ?B" and b: "b \<in> set (logits ! i)" for i b
  proof -
    from b have "b \<in> set (ll ! i) \<or> b = Z"
      by (auto simp: li [OF i] split: if_splits)
    then show ?thesis
    proof
      assume "b \<in> set (ll ! i)"
      then have "b \<in> set (map ?blk (y ! i))"
        unfolding lli [OF i] by (blast dest: in_set_dropD in_set_takeD)
      then obtain v where v: "v \<in> set (y ! i)" "b = ?blk v" by auto
      from v(1) yvec i have "length v = nq * V" by blast
      then show ?thesis unfolding v(2) by (rule blkshape)
    next
      assume "b = Z"
      then show ?thesis by (simp add: Zv)
    qed
  qed
  have rows: "\<forall>i<length y.
          length (logits ! i) = max_list cl + 1
        \<and> (\<forall>b\<in>set (logits ! i). length b = nq \<and> (\<forall>r\<in>set b. length r = V))
        \<and> (\<forall>t\<le>cl ! i. logits ! i ! t =
              map (\<lambda>k. take V (drop (k * V) (y ! i ! (text_lengths ! i + 1 + t)))) [0..<nq])
        \<and> (\<forall>t. cl ! i < t \<and> t \<le> max_list cl \<longrightarrow>
              logits ! i ! t = replicate nq (replicate V 0))"
  proof (intro allI impI)
    fix i assume i: "i < length y"
    have 1: "length (logits ! i) = max_list cl + 1" by (rule lil [OF i])
    have 2: "\<forall>b\<in>set (logits ! i). length b = nq \<and> (\<forall>r\<in>set b. length r = V)"
      using shape [OF i] by blast
    have 3: "\<forall>t\<le>cl ! i. logits ! i ! t =
              map (\<lambda>k. take V (drop (k * V) (y ! i ! (text_lengths ! i + 1 + t)))) [0..<nq]"
      using real [OF i] by blast
    have 4: "\<forall>t. cl ! i < t \<and> t \<le> max_list cl \<longrightarrow>
              logits ! i ! t = replicate nq (replicate V 0)"
      using pad [OF i] by blast
    from 1 2 3 4 show "length (logits ! i) = max_list cl + 1
        \<and> (\<forall>b\<in>set (logits ! i). length b = nq \<and> (\<forall>r\<in>set b. length r = V))
        \<and> (\<forall>t\<le>cl ! i. logits ! i ! t =
              map (\<lambda>k. take V (drop (k * V) (y ! i ! (text_lengths ! i + 1 + t)))) [0..<nq])
        \<and> (\<forall>t. cl ! i < t \<and> t \<le> max_list cl \<longrightarrow>
              logits ! i ! t = replicate nq (replicate V 0))"
      by (intro conjI)
  qed
  show ?thesis
    by (intro exI conjI) (rule s1 s2 s3 lB ts rows)+
qed


lemma flat_index_less:
  fixes i :: nat
  assumes "i < n" "j < L"
  shows "i * L + j < n * L"
proof -
  have "i * L + j < i * L + L" using assms(2) by simp
  also have "\<dots> = Suc i * L" by simp
  also have "\<dots> \<le> n * L" using assms(1) by (intro mult_le_mono1) simp
  finally show ?thesis .
qed

lemma nth_take_drop_flat:
  assumes "length xs = n * L" "i < n" "j < L"
  shows "take L (drop (i * L) xs) ! j = xs ! (i * L + j)"
proof -
  have "i * L + j < length xs" using flat_index_less [OF assms(2,3)] assms(1) by simp
  with assms(3) show ?thesis by simp
qed

lemma mask_frame_iff:
  fixes c :: nat
  assumes "q < nq"
  shows "(c * nq \<le> t * nq + q) = (c \<le> t)"
proof (cases "c \<le> t")
  case True
  then have "c * nq \<le> t * nq" by (rule mult_le_mono1)
  then have "c * nq \<le> t * nq + q" by (rule trans_le_add1)
  with True show ?thesis by simp
next
  case False
  then have "Suc t \<le> c" by simp
  then have "Suc t * nq \<le> c * nq" by (rule mult_le_mono1)
  moreover have "t * nq + q < Suc t * nq" using assms by simp
  ultimately have "t * nq + q < c * nq" by (rule less_le_trans [rotated])
  with False show ?thesis by simp
qed

lemma merge_time_rows:
  assumes "length x = bb" "\<forall>i<bb. length (x ! i) = tt"
  shows "merge_time bb tt x = Inr (map concat x)"
proof -
  have "list_all (\<lambda>row. length row = tt) x"
    using assms by (simp add: list_all_length)
  with assms(1) show ?thesis by (simp add: merge_time_def)
qed


text \<open>The loss of nll from the padded logits and the targets, and its masking.\<close>

lemma nll_loss_stage:
  fixes m :: "'e laura_gen_model" and logits :: "real list list list list"
    and target :: "int list list list"
  assumes ne: "cl \<noteq> []"
    and len: "length logits = length cl" "length target = length cl"
    and lrows: "\<forall>i<length cl. length (logits ! i) = tt
        \<and> (\<forall>b\<in>set (logits ! i). length b = predict_nq m
              \<and> (\<forall>r\<in>set b. int (length r) = codebook_size m + 1))"
    and trows: "\<forall>i<length cl. length (target ! i) = tt
        \<and> (\<forall>fr\<in>set (target ! i). length fr = predict_nq m)"
    and tt: "tt = max_list cl + 1"
  shows "\<exists>x tgt nll_flat pad_mask nll_masked rows nll_out.
      merge_time (length cl) tt logits = Inr x
    \<and> merge_time (length cl) tt target = Inr tgt
    \<and> criterion_ce m ce x tgt = Inr nll_flat
    \<and> make_pad_mask (map (\<lambda>l. l * predict_nq m) (map (\<lambda>l. l + 1) cl)) = Inr pad_mask
    \<and> masked_fill nll_flat (concat pad_mask) = Inr nll_masked
    \<and> reshape_rows (length cl) nll_masked = Inr rows
    \<and> emap (split_frames tt (predict_nq m)) rows = Inr nll_out
    \<and> length nll_out = length cl
    \<and> (\<forall>i<length cl. length (nll_out ! i) = tt
        \<and> (\<forall>t<tt. length (nll_out ! i ! t) = predict_nq m
              \<and> (\<forall>q<predict_nq m. nll_out ! i ! t ! q =
                    (if cl ! i + 1 \<le> t then 0 else ce (logits ! i ! t ! q) (target ! i ! t ! q)))))"
proof -
  let ?B = "length cl"
  let ?nq = "predict_nq m"
  let ?L = "tt * ?nq"
  let ?lens = "map (\<lambda>l. l * ?nq) (map (\<lambda>l. l + 1) cl)"
  let ?F = "\<lambda>row :: real list. map (\<lambda>t. take ?nq (drop (t * ?nq) row)) [0..<tt]"
  define x where "x = map concat logits"
  define tgt where "tgt = map concat target"
  define flat where "flat = map2 ce (concat x) (concat tgt)"
  define pm where "pm = map (\<lambda>l. map (\<lambda>j. l \<le> j) [0..<?L]) ?lens"
  define masked where "masked = map2 (\<lambda>x b. if b then 0 else x) flat (concat pm)"
  define rows where "rows = map (\<lambda>k. take ?L (drop (k * ?L) masked)) [0..<?B]"
  define out where "out = map ?F rows"
  have B0: "0 < ?B" using ne by simp
  have s1: "merge_time ?B tt logits = Inr x"
    unfolding x_def using len(1) lrows by (intro merge_time_rows) simp_all
  have s2: "merge_time ?B tt target = Inr tgt"
    unfolding tgt_def using len(2) trows by (intro merge_time_rows) simp_all
  have xl: "length x = ?B" "length tgt = ?B" by (simp_all add: x_def tgt_def len)
  have xi: "x ! i = concat (logits ! i)" "tgt ! i = concat (target ! i)" if "i < ?B" for i
    using that len by (simp_all add: x_def tgt_def)
  have lb: "\<forall>b\<in>set (logits ! i). length b = ?nq" if "i < ?B" for i
    using lrows that by blast
  have tb: "\<forall>b\<in>set (target ! i). length b = ?nq" if "i < ?B" for i
    using trows that by blast
  have li: "length (logits ! i) = tt" "length (target ! i) = tt" if "i < ?B" for i
    using lrows trows that by blast+
  have xil: "length (x ! i) = ?L" "length (tgt ! i) = ?L" if "i < ?B" for i
    using concat_equal_len [OF lb [OF that]] concat_equal_len [OF tb [OF that]]
    by (simp_all add: xi [OF that] li [OF that])
  have xrows: "\<forall>r\<in>set x. length r = ?L" "\<forall>r\<in>set tgt. length r = ?L"
    using xil xl by (auto simp: in_set_conv_nth)
  have cl: "length (concat x) = ?B * ?L" "length (concat tgt) = ?B * ?L"
    using concat_equal_len [OF xrows(1)] concat_equal_len [OF xrows(2)] by (simp_all add: xl)
  have voc: "list_all (list_all (\<lambda>row. int (length row) = codebook_size m + 1)) x"
    unfolding list_all_iff
  proof (intro ballI)
    fix r row assume r: "r \<in> set x" and row: "row \<in> set r"
    from r obtain i where i: "i < ?B" "r = x ! i" using xl by (auto simp: in_set_conv_nth)
    from row have "row \<in> set (concat (logits ! i))" by (simp add: i xi [OF i(1)])
    then obtain b where "b \<in> set (logits ! i)" "row \<in> set b" by auto
    with lrows i(1) show "int (length row) = codebook_size m + 1" by blast
  qed
  have s3: "criterion_ce m ce x tgt = Inr flat"
    using voc cl by (simp add: criterion_ce_def flat_def)
  have fl: "length flat = ?B * ?L" by (simp add: flat_def cl)
  have mx: "max_list ?lens = ?L"
    by (simp only: max_list_mult max_list_Suc [OF ne] tt)
  have "?lens \<noteq> []" using ne by simp
  then have s4: "make_pad_mask ?lens = Inr pm"
    by (simp only: make_pad_mask_def pm_def mx if_False)
  have pl: "length pm = ?B" by (simp add: pm_def)
  have prow: "\<forall>r\<in>set pm. length r = ?L" by (auto simp: pm_def)
  have cpl: "length (concat pm) = ?B * ?L"
    using concat_equal_len [OF prow] by (simp add: pl)
  have s5: "masked_fill flat (concat pm) = Inr masked"
    by (simp add: masked_fill_def masked_def fl cpl)
  have ml: "length masked = ?B * ?L" by (simp add: masked_def fl cpl)
  have "length masked mod ?B = 0" "length masked div ?B = ?L"
    using B0 by (simp_all add: ml)
  then have s6: "reshape_rows ?B masked = Inr rows"
    using B0 by (simp add: reshape_rows_def rows_def)
  have rl: "length rows = ?B" by (simp add: rows_def)
  have ri: "rows ! i = take ?L (drop (i * ?L) masked)" if "i < ?B" for i
    using that by (simp add: rows_def)
  have ril: "length (rows ! i) = ?L" if "i < ?B" for i
    unfolding ri [OF that] using ml that by (rule heads_shape)
  have s7: "emap (split_frames tt ?nq) rows = Inr out"
    unfolding out_def
  proof (rule emap_Inr_map)
    fix row assume "row \<in> set rows"
    then obtain i where "i < ?B" "row = rows ! i" using rl by (auto simp: in_set_conv_nth)
    then have "length row = ?L" using ril by simp
    then show "split_frames tt ?nq row = Inr (?F row)" by (simp add: split_frames_def)
  qed
  have ol: "length out = ?B" by (simp add: out_def rl)
  have vals: "length (out ! i) = tt
        \<and> (\<forall>t<tt. length (out ! i ! t) = ?nq
              \<and> (\<forall>q<?nq. out ! i ! t ! q =
                    (if cl ! i + 1 \<le> t then 0 else ce (logits ! i ! t ! q) (target ! i ! t ! q))))"
    if i: "i < ?B" for i
  proof (intro conjI allI impI)
    have oi: "out ! i = ?F (rows ! i)" using i by (simp add: out_def rl)
    show "length (out ! i) = tt" by (simp add: oi)
    fix t assume t: "t < tt"
    have oit: "out ! i ! t = take ?nq (drop (t * ?nq) (rows ! i))" using t by (simp add: oi)
    show "length (out ! i ! t) = ?nq"
      unfolding oit using ril [OF i] t by (rule heads_shape)
    fix q assume q: "q < ?nq"
    let ?j = "t * ?nq + q"
    let ?k = "i * ?L + ?j"
    have j: "?j < ?L" using t q by (rule flat_index_less)
    have k: "?k < ?B * ?L" using i j by (rule flat_index_less)
    have "out ! i ! t ! q = rows ! i ! ?j"
      unfolding oit using ril [OF i] t q by (rule nth_take_drop_flat)
    also have "\<dots> = masked ! ?k"
      unfolding ri [OF i] using ml i j by (rule nth_take_drop_flat)
    also have "\<dots> = (if concat pm ! ?k then 0 else flat ! ?k)"
      using k by (simp add: masked_def fl cpl)
    finally have a: "out ! i ! t ! q = (if concat pm ! ?k then 0 else flat ! ?k)" .
    have "concat pm ! ?k = pm ! i ! ?j"
      using prow _ j by (rule concat_equal_nth) (simp add: pl i)
    also have "\<dots> = ((cl ! i + 1) * ?nq \<le> ?j)" using i j by (simp add: pm_def)
    also have "\<dots> = (cl ! i + 1 \<le> t)" using q by (rule mask_frame_iff)
    finally have b: "concat pm ! ?k = (cl ! i + 1 \<le> t)" .
    have "concat x ! ?k = x ! i ! ?j"
      using xrows(1) _ j by (rule concat_equal_nth) (simp add: xl i)
    also have "\<dots> = concat (logits ! i) ! ?j" by (simp only: xi [OF i])
    also have "\<dots> = logits ! i ! t ! q"
      using lb [OF i] _ q by (rule concat_equal_nth) (simp add: li [OF i] t)
    finally have c: "concat x ! ?k = logits ! i ! t ! q" .
    have "concat tgt ! ?k = tgt ! i ! ?j"
      using xrows(2) _ j by (rule concat_equal_nth) (simp add: xl i)
    also have "\<dots> = concat (target ! i) ! ?j" by (simp only: xi [OF i])
    also have "\<dots> = target ! i ! t ! q"
      using tb [OF i] _ q by (rule concat_equal_nth) (simp add: li [OF i] t)
    finally have d: "concat tgt ! ?k = target ! i ! t ! q" .
    have "flat ! ?k = ce (concat x ! ?k) (concat tgt ! ?k)"
      using k by (simp add: flat_def cl)
    then have e: "flat ! ?k = ce (logits ! i ! t ! q) (target ! i ! t ! q)"
      by (simp only: c d)
    show "out ! i ! t ! q =
            (if cl ! i + 1 \<le> t then 0 else ce (logits ! i ! t ! q) (target ! i ! t ! q))"
      by (simp only: a b e)
  qed
  then have all: "\<forall>i<length cl. length (out ! i) = tt
        \<and> (\<forall>t<tt. length (out ! i ! t) = ?nq
              \<and> (\<forall>q<?nq. out ! i ! t ! q =
                    (if cl ! i + 1 \<le> t then 0 else ce (logits ! i ! t ! q) (target ! i ! t ! q))))"
    by (intro allI impI)
  show ?thesis
    by (intro exI conjI) (rule s1 s2 s3 s4 s5 s6 s7 ol all)+
qed


lemma slice_time_id: "\<forall>i<length x. length (x ! i) \<le> n \<Longrightarrow> slice_time n x = x"
  unfolding slice_time_def by (intro nth_equalityI) simp_all

text \<open>
  Claim C5. On a batch of at least one example whose tensors agree on the batch size,
  with codec frames of one column, lengths within the tensors, at least one predicted
  quantizer and a language model that returns, for every input position, one vector of
  \<open>predict_nq * (codebook_size + 1)\<close> logits, \<open>nll\<close> returns. For every example \<open>i\<close>
  the logits at the positions \<open>t \<le> codec_lengths[i]\<close> are the outputs of the language
  model at the positions \<open>text_lengths[i] + 1 + t\<close>, each cut into \<open>predict_nq\<close> rows:
  a span of \<open>codec_lengths[i] + 1\<close> positions that starts at the task id of the input
  built by \<open>build_llm_io\<close> and covers its codec slots; the later positions are the zero
  padding. The nll value of such a position is the criterion's, and the nll value is
  0 at every position from \<open>codec_lengths[i] + 1\<close> on.
\<close>

theorem nll_logits_and_padding:
  fixes m :: "('e::zero) laura_gen_model"
  assumes ne: "text_arg \<noteq> []"
    and len: "length text_lengths = length text_arg" "length codec = length text_arg"
      "length codec_lengths = length text_arg"
    and frames: "list_all (list_all (\<lambda>fr. length fr = 1)) codec"
    and valid: "\<forall>i<length text_arg. text_lengths ! i \<le> length (text_arg ! i)
                  \<and> codec_lengths ! i \<le> length (codec ! i)"
    and nq: "0 < predict_nq m" and cb: "0 \<le> codebook_size m"
    and lm: "\<forall>seq xl tl1. length (codec_lm seq xl tl1) = length seq
        \<and> (\<forall>i<length seq. length (codec_lm seq xl tl1 ! i) = length (seq ! i)
              \<and> (\<forall>v\<in>set (codec_lm seq xl tl1 ! i).
                    length v = predict_nq m * nat (codebook_size m + 1)))"
  shows "\<exists>sequence x_lengths y_lengths nllv logits target.
      build_llm_io m (slice_time (max_list text_lengths) text_arg) text_lengths
        (Some (slice_time (max_list codec_lengths) codec)) (Some codec_lengths) True =
        Inr (InputsTargets sequence target x_lengths y_lengths)
    \<and> nll m codec_lm ce text_arg text_lengths (Some codec) (Some codec_lengths) =
        Inr (nllv, logits, target, map (\<lambda>l. l + 1) codec_lengths)
    \<and> length logits = length text_arg \<and> length nllv = length text_arg
    \<and> (\<forall>i<length text_arg.
          length (logits ! i) = max_list codec_lengths + 1
        \<and> length (nllv ! i) = max_list codec_lengths + 1
        \<and> sequence ! i ! (text_lengths ! i + 1) = lm_embedding m task_id
        \<and> (\<forall>j<codec_lengths ! i.
              sequence ! i ! (text_lengths ! i + 2 + j) = kmeans_emb m (hd (codec ! i ! j)))
        \<and> (\<forall>t\<le>codec_lengths ! i.
              reshape_rows (predict_nq m)
                (codec_lm sequence x_lengths (map (\<lambda>l. l + 1) text_lengths)
                   ! i ! (text_lengths ! i + 1 + t)) = Inr (logits ! i ! t))
        \<and> (\<forall>t. codec_lengths ! i < t \<and> t \<le> max_list codec_lengths \<longrightarrow>
              logits ! i ! t
                = replicate (predict_nq m) (replicate (nat (codebook_size m + 1)) 0))
        \<and> (\<forall>t\<le>max_list codec_lengths. length (nllv ! i ! t) = predict_nq m)
        \<and> (\<forall>t q. t \<le> codec_lengths ! i \<and> q < predict_nq m \<longrightarrow>
              nllv ! i ! t ! q = ce (logits ! i ! t ! q) (target ! i ! t ! q))
        \<and> (\<forall>t q. codec_lengths ! i + 1 \<le> t \<and> t \<le> max_list codec_lengths \<and> q < predict_nq m \<longrightarrow>
              nllv ! i ! t ! q = 0))"
proof -
  let ?B = "length text_arg"
  let ?nq = "predict_nq m"
  let ?V = "nat (codebook_size m + 1)"
  let ?tt = "max_list codec_lengths + 1"
  let ?xl = "map (\<lambda>i. text_lengths ! i + 2 + codec_lengths ! i) [0..<?B]"
  let ?yl = "map (\<lambda>l. l + 1) codec_lengths"
  let ?tl1 = "map (\<lambda>l. l + 1) text_lengths"
  from nll_llm_io [OF ne len frames valid, of m]
  obtain sequence target where
    io: "build_llm_io m (slice_time (max_list text_lengths) text_arg) text_lengths
        (Some (slice_time (max_list codec_lengths) codec)) (Some codec_lengths) True =
        Inr (InputsTargets sequence target ?xl ?yl)"
    and ls: "length sequence = ?B" and lt: "length target = ?B"
    and rows: "\<forall>i<?B. length (sequence ! i) = max_list ?xl
        \<and> sequence ! i ! (text_lengths ! i + 1) = lm_embedding m task_id
        \<and> (\<forall>j<codec_lengths ! i.
              sequence ! i ! (text_lengths ! i + 2 + j) = kmeans_emb m (hd (codec ! i ! j)))
        \<and> length (target ! i) = ?tt
        \<and> (\<forall>fr\<in>set (target ! i). length fr = ?nq)"
    by blast
  define y where "y = codec_lm sequence ?xl ?tl1"
  have B0: "0 < ?B" using ne by simp
  have cne: "codec_lengths \<noteq> []" "text_lengths \<noteq> []" using ne len by auto
  note lm1 = lm [rule_format, THEN conjunct1]
  note lm2 = lm [rule_format, THEN conjunct2, rule_format, THEN conjunct1]
  note lm3 = lm [rule_format, THEN conjunct2, rule_format, THEN conjunct2, rule_format]
  have yl: "length y = ?B" unfolding y_def by (simp only: lm1 ls)
  have yne: "y \<noteq> []" using yl B0 by auto
  have yrow: "length (y ! i) = max_list ?xl" if "i < ?B" for i
  proof -
    have "i < length sequence" using that by (simp only: ls)
    then have "length (y ! i) = length (sequence ! i)" unfolding y_def by (rule lm2)
    with rows that show ?thesis by simp
  qed
  have yvec: "\<forall>i<length y. \<forall>v\<in>set (y ! i). length v = ?nq * ?V"
  proof (intro allI impI ballI)
    fix i v assume "i < length y" and v: "v \<in> set (y ! i)"
    then have "i < length sequence" by (simp only: yl ls)
    then show "length v = ?nq * ?V" using v unfolding y_def by (rule lm3)
  qed
  have ylen: "\<forall>i<length y. text_lengths ! i + 2 + codec_lengths ! i \<le> length (y ! i)"
  proof (intro allI impI)
    fix i assume "i < length y"
    then have i: "i < ?B" by (simp only: yl)
    then have "?xl ! i \<in> set ?xl" by (intro nth_mem) simp
    then have "?xl ! i \<le> max_list ?xl" by (rule max_list_ge)
    then show "text_lengths ! i + 2 + codec_lengths ! i \<le> length (y ! i)"
      using i by (simp add: yrow [OF i])
  qed
  from nll_logits_stage [OF nq yne _ _ ylen yvec] len yl
  obtain y4 logits_list logits where
    s1: "split_heads ?nq y = Inr y4"
    and s2: "real_logits text_lengths codec_lengths y4 = Inr logits_list"
    and s3: "pad_list logits_list (zero_block logits_list) = Inr logits"
    and ll: "length logits = ?B" and ts: "time_size logits = ?tt"
    and lrows: "\<forall>i<?B. length (logits ! i) = ?tt
        \<and> (\<forall>b\<in>set (logits ! i). length b = ?nq \<and> (\<forall>r\<in>set b. length r = ?V))
        \<and> (\<forall>t\<le>codec_lengths ! i. logits ! i ! t =
              map (\<lambda>k. take ?V (drop (k * ?V) (y ! i ! (text_lengths ! i + 1 + t)))) [0..<?nq])
        \<and> (\<forall>t. codec_lengths ! i < t \<and> t \<le> max_list codec_lengths \<longrightarrow>
              logits ! i ! t = replicate ?nq (replicate ?V 0))"
    by (simp only: yl) blast
  have V: "int ?V = codebook_size m + 1" using cb by simp
  have lrows': "\<forall>i<length codec_lengths. length (logits ! i) = ?tt
        \<and> (\<forall>b\<in>set (logits ! i). length b = ?nq
              \<and> (\<forall>r\<in>set b. int (length r) = codebook_size m + 1))"
    using lrows V by (simp only: len) metis
  have trows': "\<forall>i<length codec_lengths. length (target ! i) = ?tt
        \<and> (\<forall>fr\<in>set (target ! i). length fr = ?nq)"
    using rows by (simp only: len) blast
  from nll_loss_stage [OF cne(1) _ _ lrows' trows' refl, of ce] ll lt len
  obtain x tgt nll_flat pad_mask nll_masked rws nllv where
    t1: "merge_time ?B ?tt logits = Inr x"
    and t2: "merge_time ?B ?tt target = Inr tgt"
    and t3: "criterion_ce m ce x tgt = Inr nll_flat"
    and t4: "make_pad_mask (map (\<lambda>l. l * ?nq) ?yl) = Inr pad_mask"
    and t5: "masked_fill nll_flat (concat pad_mask) = Inr nll_masked"
    and t6: "reshape_rows ?B nll_masked = Inr rws"
    and t7: "emap (split_frames ?tt ?nq) rws = Inr nllv"
    and nl: "length nllv = ?B"
    and nrows: "\<forall>i<?B. length (nllv ! i) = ?tt
        \<and> (\<forall>t<?tt. length (nllv ! i ! t) = ?nq
              \<and> (\<forall>q<?nq. nllv ! i ! t ! q =
                    (if codec_lengths ! i + 1 \<le> t then 0
                     else ce (logits ! i ! t ! q) (target ! i ! t ! q))))"
    by (simp only: len) blast
  have xne: "(?xl = []) = False" "(?yl = []) = False" "(text_lengths = []) = False"
    "(codec_lengths = []) = False"
    using ne cne by simp_all
  have sl1: "slice_time (max_list ?xl) sequence = sequence"
    using rows ls by (intro slice_time_id) simp
  have "max_list ?yl = ?tt" using cne(1) by (rule max_list_Suc)
  moreover have "slice_time ?tt target = target"
    using rows lt by (intro slice_time_id) simp
  ultimately have sl2: "slice_time (max_list ?yl) target = target" by (simp only:)
  have run: "nll m codec_lm ce text_arg text_lengths (Some codec) (Some codec_lengths) =
        Inr (nllv, logits, target, ?yl)"
    unfolding nll_def Let_def
    by (simp only: tensor_max_def xne if_False ebind_simps option.case io llm_io.case
          sl1 sl2 y_def [symmetric] yl s1 s2 s3 ts t1 t2 t3 t4 t5 t6 t7)
  have facts: "length (logits ! i) = ?tt
        \<and> length (nllv ! i) = ?tt
        \<and> sequence ! i ! (text_lengths ! i + 1) = lm_embedding m task_id
        \<and> (\<forall>j<codec_lengths ! i.
              sequence ! i ! (text_lengths ! i + 2 + j) = kmeans_emb m (hd (codec ! i ! j)))
        \<and> (\<forall>t\<le>codec_lengths ! i.
              reshape_rows ?nq
                (codec_lm sequence ?xl ?tl1 ! i ! (text_lengths ! i + 1 + t))
                = Inr (logits ! i ! t))
        \<and> (\<forall>t. codec_lengths ! i < t \<and> t \<le> max_list codec_lengths \<longrightarrow>
              logits ! i ! t = replicate ?nq (replicate ?V 0))
        \<and> (\<forall>t\<le>max_list codec_lengths. length (nllv ! i ! t) = ?nq)
        \<and> (\<forall>t q. t \<le> codec_lengths ! i \<and> q < ?nq \<longrightarrow>
              nllv ! i ! t ! q = ce (logits ! i ! t ! q) (target ! i ! t ! q))
        \<and> (\<forall>t q. codec_lengths ! i + 1 \<le> t \<and> t \<le> max_list codec_lengths \<and> q < ?nq \<longrightarrow>
              nllv ! i ! t ! q = 0)" if i: "i < ?B" for i
  proof (intro conjI allI impI)
    have cle: "codec_lengths ! i \<le> max_list codec_lengths"
      using i len by (intro max_list_ge) simp
    show "length (logits ! i) = ?tt" using lrows i by blast
    show "length (nllv ! i) = ?tt" using nrows i by blast
    show "sequence ! i ! (text_lengths ! i + 1) = lm_embedding m task_id" using rows i by blast
    show "sequence ! i ! (text_lengths ! i + 2 + j) = kmeans_emb m (hd (codec ! i ! j))"
      if "j < codec_lengths ! i" for j using rows i that by blast
    show "reshape_rows ?nq (codec_lm sequence ?xl ?tl1 ! i ! (text_lengths ! i + 1 + t))
            = Inr (logits ! i ! t)" if t: "t \<le> codec_lengths ! i" for t
    proof -
      let ?v = "y ! i ! (text_lengths ! i + 1 + t)"
      have "text_lengths ! i + 2 + codec_lengths ! i \<le> length (y ! i)"
        using ylen i yl by simp
      with t have "text_lengths ! i + 1 + t < length (y ! i)" by simp
      then have "?v \<in> set (y ! i)" by (rule nth_mem)
      with yvec i yl have "length ?v = ?nq * ?V" by simp
      with nq have "reshape_rows ?nq ?v = Inr (map (\<lambda>k. take ?V (drop (k * ?V) ?v)) [0..<?nq])"
        by (rule reshape_rows_vector)
      moreover have "logits ! i ! t = map (\<lambda>k. take ?V (drop (k * ?V) ?v)) [0..<?nq]"
        using lrows i t by blast
      ultimately show ?thesis by (simp only: y_def)
    qed
    show "logits ! i ! t = replicate ?nq (replicate ?V 0)"
      if "codec_lengths ! i < t \<and> t \<le> max_list codec_lengths" for t
      using lrows i that by blast
    show "length (nllv ! i ! t) = ?nq" if "t \<le> max_list codec_lengths" for t
    proof -
      from that have "t < ?tt" by simp
      with nrows i show ?thesis by blast
    qed
    show "nllv ! i ! t ! q = ce (logits ! i ! t ! q) (target ! i ! t ! q)"
      if "t \<le> codec_lengths ! i \<and> q < ?nq" for t q
    proof -
      from that cle have "t < ?tt" "q < ?nq" "\<not> codec_lengths ! i + 1 \<le> t" by simp_all
      with nrows i have "nllv ! i ! t ! q =
          (if codec_lengths ! i + 1 \<le> t then 0 else ce (logits ! i ! t ! q) (target ! i ! t ! q))"
        by blast
      with \<open>\<not> codec_lengths ! i + 1 \<le> t\<close> show ?thesis by simp
    qed
    show "nllv ! i ! t ! q = 0"
      if "codec_lengths ! i + 1 \<le> t \<and> t \<le> max_list codec_lengths \<and> q < ?nq" for t q
    proof -
      from that have "t < ?tt" "q < ?nq" "codec_lengths ! i + 1 \<le> t" by simp_all
      with nrows i have "nllv ! i ! t ! q =
          (if codec_lengths ! i + 1 \<le> t then 0 else ce (logits ! i ! t ! q) (target ! i ! t ! q))"
        by blast
      with \<open>codec_lengths ! i + 1 \<le> t\<close> show ?thesis by simp
    qed
  qed
  then have all: "\<forall>i<?B. length (logits ! i) = ?tt
        \<and> length (nllv ! i) = ?tt
        \<and> sequence ! i ! (text_lengths ! i + 1) = lm_embedding m task_id
        \<and> (\<forall>j<codec_lengths ! i.
              sequence ! i ! (text_lengths ! i + 2 + j) = kmeans_emb m (hd (codec ! i ! j)))
        \<and> (\<forall>t\<le>codec_lengths ! i.
              reshape_rows ?nq
                (codec_lm sequence ?xl ?tl1 ! i ! (text_lengths ! i + 1 + t))
                = Inr (logits ! i ! t))
        \<and> (\<forall>t. codec_lengths ! i < t \<and> t \<le> max_list codec_lengths \<longrightarrow>
              logits ! i ! t = replicate ?nq (replicate ?V 0))
        \<and> (\<forall>t\<le>max_list codec_lengths. length (nllv ! i ! t) = ?nq)
        \<and> (\<forall>t q. t \<le> codec_lengths ! i \<and> q < ?nq \<longrightarrow>
              nllv ! i ! t ! q = ce (logits ! i ! t ! q) (target ! i ! t ! q))
        \<and> (\<forall>t q. codec_lengths ! i + 1 \<le> t \<and> t \<le> max_list codec_lengths \<and> q < ?nq \<longrightarrow>
              nllv ! i ! t ! q = 0)"
    by (intro allI impI)
  show ?thesis
    by (intro exI conjI) (rule io run ll nl all)+
qed


theorem nll_logits_and_padding_witness:
  "\<exists>nllv logits target.
      nll \<lparr>codebook_size = 2, predict_nq = 1, lm_embedding = (\<lambda>i. i), kmeans_emb = (\<lambda>i. i + 10)\<rparr>
        (\<lambda>s xl tl1. map (map (\<lambda>e. [real_of_int e, 0, 1])) s) (\<lambda>row t. row ! 0 + real_of_int t)
        [[1, 2], [3, 0 :: int]] [2, 1] (Some [[[0], [1]], [[1], [0]]]) (Some [2, 1])
        = Inr (nllv, logits, target, [3, 2])
    \<and> length (logits ! 1) = 3
    \<and> logits ! 1 ! 2 = [[0, 0, 0]]
    \<and> nllv ! 1 ! 2 ! 0 = 0"
proof -
  let ?m = "\<lparr>codebook_size = 2, predict_nq = 1, lm_embedding = (\<lambda>i. i),
              kmeans_emb = (\<lambda>i. i + 10)\<rparr> :: int laura_gen_model"
  let ?lm = "\<lambda>(s :: int list list) (xl :: nat list) (tl1 :: nat list).
               map (map (\<lambda>e. [real_of_int e, 0, 1])) s"
  let ?ce = "\<lambda>(row :: real list) (t :: int). row ! 0 + real_of_int t"
  let ?text = "[[1, 2], [3, 0 :: int]]"
  let ?tl = "[2, 1 :: nat]"
  let ?codec = "[[[0], [1]], [[1], [0 :: int]]]"
  let ?cl = "[2, 1 :: nat]"
  have h1: "?text \<noteq> []" by simp
  have h2: "length ?tl = length ?text" "length ?codec = length ?text"
    "length ?cl = length ?text" by simp_all
  have h3: "list_all (list_all (\<lambda>fr. length fr = 1)) ?codec" by simp
  have h4: "\<forall>i<length ?text. ?tl ! i \<le> length (?text ! i) \<and> ?cl ! i \<le> length (?codec ! i)"
    by (simp add: numeral_2_eq_2 All_less_Suc)
  have h5: "0 < predict_nq ?m" "0 \<le> codebook_size ?m" by simp_all
  have h6: "\<forall>seq xl tl1. length (?lm seq xl tl1) = length seq
        \<and> (\<forall>i<length seq. length (?lm seq xl tl1 ! i) = length (seq ! i)
              \<and> (\<forall>v\<in>set (?lm seq xl tl1 ! i).
                    length v = predict_nq ?m * nat (codebook_size ?m + 1)))"
    by auto
  from nll_logits_and_padding [OF h1 h2 h3 h4 h5 h6, of ?ce]
  obtain nllv logits target where
    run: "nll ?m ?lm ?ce ?text ?tl (Some ?codec) (Some ?cl)
            = Inr (nllv, logits, target, map (\<lambda>l. l + 1) ?cl)"
    and all: "\<forall>i<length ?text.
          length (logits ! i) = max_list ?cl + 1
        \<and> length (nllv ! i) = max_list ?cl + 1
        \<and> (\<forall>t. ?cl ! i < t \<and> t \<le> max_list ?cl \<longrightarrow>
              logits ! i ! t
                = replicate (predict_nq ?m) (replicate (nat (codebook_size ?m + 1)) 0))
        \<and> (\<forall>t q. ?cl ! i + 1 \<le> t \<and> t \<le> max_list ?cl \<and> q < predict_nq ?m \<longrightarrow>
              nllv ! i ! t ! q = 0)"
    by (elim exE conjE) blast
  have "(1::nat) < length ?text" by simp
  with all have one: "length (logits ! 1) = max_list ?cl + 1
        \<and> (\<forall>t. ?cl ! 1 < t \<and> t \<le> max_list ?cl \<longrightarrow>
              logits ! 1 ! t
                = replicate (predict_nq ?m) (replicate (nat (codebook_size ?m + 1)) 0))
        \<and> (\<forall>t q. ?cl ! 1 + 1 \<le> t \<and> t \<le> max_list ?cl \<and> q < predict_nq ?m \<longrightarrow>
              nllv ! 1 ! t ! q = 0)"
    by blast
  then have a: "length (logits ! 1) = 3" by simp
  from one have "?cl ! 1 < 2 \<and> 2 \<le> max_list ?cl \<longrightarrow>
      logits ! 1 ! 2 = replicate (predict_nq ?m) (replicate (nat (codebook_size ?m + 1)) 0)"
    by blast
  then have b: "logits ! 1 ! 2 = [[0, 0, 0]]" by (simp add: numeral_3_eq_3)
  from one have "?cl ! 1 + 1 \<le> 2 \<and> 2 \<le> max_list ?cl \<and> 0 < predict_nq ?m \<longrightarrow>
      nllv ! 1 ! 2 ! 0 = 0"
    by blast
  then have c: "nllv ! 1 ! 2 ! 0 = 0" by simp
  have "map (\<lambda>l. l + 1) ?cl = [3, 2]" by simp
  with run have r: "nll ?m ?lm ?ce ?text ?tl (Some ?codec) (Some ?cl)
            = Inr (nllv, logits, target, [3, 2])" by (simp only:)
  from r a b c show ?thesis by blast
qed

end
